theory Spec2Isabelle
  imports Complex_Main
begin

section \<open>Collaborative widget locking: data model\<close>

text \<open>
  The embedding follows \<^verbatim>\<open>app/dbmodels/widget_locking_models.py\<close>,
  \<^verbatim>\<open>app/codebase/widget_locking.py\<close> (class CoreWidgetLocking),
  \<^verbatim>\<open>app/services/widget_locking_service.py\<close> (class WidgetLockingService),
  \<^verbatim>\<open>app/utils/cache.py\<close> and \<^verbatim>\<open>app/core/database.py\<close>.

  Modelled are AcquireLock, RefreshLock, ReleaseLock, GetLockStatus, StopEditing and the
  reaper's sweep, each as the service method and the core functions it calls, and the
  validation of the acquire request. StartEditing, RefreshEditing and the presence view
  are left out.

  A UUID is a natural number. A timezone-aware \<^verbatim>\<open>datetime\<close> is an integer count of
  microseconds, the resolution of Python's datetime; a \<^verbatim>\<open>timedelta\<close> is a difference
  of such counts. Every \<^verbatim>\<open>datetime.now(timezone.utc)\<close> of one call is the single value
  \<open>now\<close> of the environment: the clock is read once per operation.
\<close>

type_synonym uuid = nat
type_synonym datetime = int

definition timedelta_seconds :: "int \<Rightarrow> int" where
  "timedelta_seconds n = n * 1000000"

definition timedelta_minutes :: "int \<Rightarrow> int" where
  "timedelta_minutes n = n * 60000000"

definition total_seconds :: "int \<Rightarrow> real" where
  "total_seconds d = real_of_int d / 1000000"

text \<open>Rows of the three tables. Field names carry the table's initials as a prefix.\<close>

record widget_lock =
  wl_widget_id :: uuid
  wl_dashboard_id :: uuid
  wl_session_id :: uuid
  wl_user_id :: uuid
  wl_user_name :: string
  wl_locked_at :: datetime
  wl_expires_at :: datetime
  wl_last_heartbeat :: datetime
  wl_is_active :: bool

record user_session =
  us_session_id :: uuid
  us_dashboard_id :: uuid
  us_user_id :: uuid
  us_user_name :: string
  us_user_email :: "string option"
  us_client_info :: "string option"
  us_connected_at :: datetime
  us_last_activity :: datetime
  us_is_active :: bool
  us_locked_widgets :: "uuid list"

record collaboration_event =
  ev_event_id :: uuid
  ev_dashboard_id :: uuid
  ev_widget_id :: "uuid option"
  ev_user_id :: uuid
  ev_user_name :: string
  ev_event_type :: string
  ev_event_data :: "(string \<times> int) list option"
  ev_created_at :: datetime

text \<open>The \<^verbatim>\<open>user_info\<close> dict: \<^verbatim>\<open>user_id\<close> is always present, the other keys are read
  with \<^verbatim>\<open>.get\<close>. Acquire, refresh, release and stop-editing turn the \<^verbatim>\<open>user_id\<close> they
  are given into a UUID object before they use it; \<open>ui_user_id\<close> is that UUID.\<close>

record user_info =
  ui_user_id :: uuid
  ui_user_name :: "string option"
  ui_user_email :: "string option"
  ui_client_info :: "string option"

definition get_user_name :: "user_info \<Rightarrow> string" where
  "get_user_name ui = (case ui_user_name ui of None \<Rightarrow> ''Unknown'' | Some n \<Rightarrow> n)"

text \<open>WidgetLock.is_expired and WidgetLock.time_remaining.\<close>

definition is_expired :: "datetime \<Rightarrow> widget_lock \<Rightarrow> bool" where
  "is_expired now l = (now > wl_expires_at l)"

definition time_remaining :: "datetime \<Rightarrow> widget_lock \<Rightarrow> real" where
  "time_remaining now l = max 0 (total_seconds (wl_expires_at l - now))"

section \<open>The durable store and its sessions\<close>

text \<open>
  A table is the list of its rows. \<open>pk_unique\<close> is the primary-key constraint of
  \<^verbatim>\<open>widget_locks\<close> (widget_id) and \<^verbatim>\<open>user_sessions\<close> (session_id).
\<close>

record db =
  widget_locks :: "widget_lock list"
  user_sessions :: "user_session list"
  collaboration_events :: "collaboration_event list"

definition pk_unique :: "db \<Rightarrow> bool" where
  "pk_unique d = (distinct (map wl_widget_id (widget_locks d)) \<and>
                  distinct (map us_session_id (user_sessions d)))"

text \<open>
  An AsyncSession of \<^verbatim>\<open>db_manager.session()\<close> (autocommit=False, ``manual commit
  required''): \<open>working\<close> is what the open transaction sees, \<open>committed\<close> what the
  store holds. \<open>flush\<close> sends pending changes into the open transaction and so changes
  neither. Leaving the \<^verbatim>\<open>async with\<close> block closes the session, which keeps only
  what was committed.
\<close>

record txn =
  committed :: db
  working :: db

definition begin_session :: "db \<Rightarrow> txn" where
  "begin_session d = \<lparr>committed = d, working = d\<rparr>"

definition commit :: "txn \<Rightarrow> txn" where
  "commit t = t\<lparr>committed := working t\<rparr>"

definition rollback :: "txn \<Rightarrow> txn" where
  "rollback t = t\<lparr>working := committed t\<rparr>"

definition close_session :: "txn \<Rightarrow> db" where
  "close_session t = committed t"

datatype error =
    MultipleResultsFound
  | ValueError string
  | IntegrityError
  | StoreError
  | ValidationError
  | InitError

text \<open>\<^verbatim>\<open>result.scalar_one_or_none()\<close>: no row, the one row, or MultipleResultsFound.\<close>

fun scalar_one_or_none :: "'a list \<Rightarrow> error + 'a option" where
  "scalar_one_or_none [] = Inr None"
| "scalar_one_or_none [x] = Inr (Some x)"
| "scalar_one_or_none (x # y # zs) = Inl MultipleResultsFound"

text \<open>Writing an ORM object back: the row with the object's primary key is replaced.\<close>

definition put_lock :: "widget_lock \<Rightarrow> widget_lock list \<Rightarrow> widget_lock list" where
  "put_lock l ls = map (\<lambda>r. if wl_widget_id r = wl_widget_id l then l else r) ls"

definition put_session :: "user_session \<Rightarrow> user_session list \<Rightarrow> user_session list" where
  "put_session s ss = map (\<lambda>r. if us_session_id r = us_session_id s then s else r) ss"

definition upd_locks :: "(widget_lock list \<Rightarrow> widget_lock list) \<Rightarrow> txn \<Rightarrow> txn" where
  "upd_locks f t = t\<lparr>working := (working t)\<lparr>widget_locks := f (widget_locks (working t))\<rparr>\<rparr>"

definition upd_sessions :: "(user_session list \<Rightarrow> user_session list) \<Rightarrow> txn \<Rightarrow> txn" where
  "upd_sessions f t =
     t\<lparr>working := (working t)\<lparr>user_sessions := f (user_sessions (working t))\<rparr>\<rparr>"

definition upd_events ::
  "(collaboration_event list \<Rightarrow> collaboration_event list) \<Rightarrow> txn \<Rightarrow> txn" where
  "upd_events f t =
     t\<lparr>working := (working t)\<lparr>collaboration_events := f (collaboration_events (working t))\<rparr>\<rparr>"

text \<open>
  The environment of one call: the clock and the values \<^verbatim>\<open>uuid.uuid4()\<close> returns for a
  new session row, for the placeholder session id of a negative response and for an
  audit event.
\<close>

record env =
  now :: datetime
  uuid4_session :: uuid
  uuid4_response :: uuid
  uuid4_event :: uuid

text \<open>
  A store call that raises (connection lost, statement rejected) aborts the operation at
  that call, so at most one such failure is met per operation; \<open>acquire_fault\<close> names
  the store call of AcquireLock that raises, if any:
  \<^item> \<open>CheckSelectFails\<close>: the service's select of the active lock row;
  \<^item> \<open>LockSelectFails\<close>: the core's select of the widget's row;
  \<^item> \<open>SessionSelectFails\<close>: the select of the user's active session;
  \<^item> \<open>SessionWriteFails\<close>: the flush (session found) or the commit (session created) in
    \<^verbatim>\<open>get_or_create_user_session\<close>;
  \<^item> \<open>LockCommitFails\<close>: the commit of the lock upsert;
  \<^item> \<open>LockRefreshFails\<close>: the re-read of the lock row after that commit;
  \<^item> \<open>EventLogFails\<close>: the flush of the \<open>lock_acquired\<close> audit event.

  RefreshLock, ReleaseLock and StopEditing are modelled with a store that answers; what
  they raise by themselves (MultipleResultsFound) is part of the model.
\<close>

datatype acquire_fault =
    CheckSelectFails
  | LockSelectFails
  | SessionSelectFails
  | SessionWriteFails
  | LockCommitFails
  | LockRefreshFails
  | EventLogFails

section \<open>CoreWidgetLocking\<close>

definition get_active_widget_lock :: "txn \<Rightarrow> uuid \<Rightarrow> error + widget_lock option" where
  "get_active_widget_lock t widget_id =
     scalar_one_or_none
       (filter (\<lambda>l. wl_widget_id l = widget_id \<and> wl_is_active l) (widget_locks (working t)))"

text \<open>\<^verbatim>\<open>get_user_session\<close> catches every exception and returns None.\<close>

definition get_user_session :: "txn \<Rightarrow> uuid \<Rightarrow> user_session option" where
  "get_user_session t session_id =
     (case scalar_one_or_none
             (filter (\<lambda>s. us_session_id s = session_id \<and> us_is_active s)
                (user_sessions (working t))) of
        Inl e \<Rightarrow> None
      | Inr r \<Rightarrow> r)"

definition get_or_create_user_session ::
  "env \<Rightarrow> acquire_fault option \<Rightarrow> txn \<Rightarrow> uuid \<Rightarrow> user_info \<Rightarrow> (error + user_session) \<times> txn" where
  "get_or_create_user_session e fault t dashboard_id ui =
     (if fault = Some SessionSelectFails then (Inl StoreError, t)
      else
        case scalar_one_or_none
               (filter (\<lambda>s. us_dashboard_id s = dashboard_id \<and> us_user_id s = ui_user_id ui
                              \<and> us_is_active s)
                  (user_sessions (working t))) of
          Inl err \<Rightarrow> (Inl err, t)
        | Inr (Some existing_session) \<Rightarrow>
            (let existing_session' = existing_session\<lparr>us_last_activity := now e\<rparr>;
                 t1 = upd_sessions (put_session existing_session') t
             in if fault = Some SessionWriteFails then (Inl StoreError, t1)
                else (Inr existing_session', t1))
        | Inr None \<Rightarrow>
            (let user_session =
                   \<lparr>us_session_id = uuid4_session e,
                    us_dashboard_id = dashboard_id,
                    us_user_id = ui_user_id ui,
                    us_user_name = get_user_name ui,
                    us_user_email = ui_user_email ui,
                    us_client_info = ui_client_info ui,
                    us_connected_at = now e,
                    us_last_activity = now e,
                    us_is_active = True,
                    us_locked_widgets = []\<rparr>;
                 t1 = upd_sessions (\<lambda>ss. ss @ [user_session]) t
             in if fault = Some SessionWriteFails then (Inl StoreError, t1)
                else if uuid4_session e \<in> set (map us_session_id (user_sessions (working t)))
                then (Inl IntegrityError, t1)
                else (Inr user_session, commit t1)))"

text \<open>
  The body of \<^verbatim>\<open>CoreWidgetLocking.acquire_widget_lock\<close> up to the point where it returns
  or raises; the \<^verbatim>\<open>except\<close> clause (rollback, re-raise) is applied by
  \<open>acquire_widget_lock_core\<close>.
\<close>

definition acquire_upsert ::
  "env \<Rightarrow> acquire_fault option \<Rightarrow> txn \<Rightarrow> uuid \<Rightarrow> uuid \<Rightarrow> user_info \<Rightarrow> int
     \<Rightarrow> widget_lock option \<Rightarrow> (error + widget_lock) \<times> txn" where
  "acquire_upsert e fault t dashboard_id widget_id ui lock_duration widget_lock =
     (case get_or_create_user_session e fault t dashboard_id ui of
        (Inl err, t1) \<Rightarrow> (Inl err, t1)
      | (Inr user_session, t1) \<Rightarrow>
          (let new_lock =
                 \<lparr>wl_widget_id = widget_id,
                  wl_dashboard_id = dashboard_id,
                  wl_session_id = us_session_id user_session,
                  wl_user_id = ui_user_id ui,
                  wl_user_name = get_user_name ui,
                  wl_locked_at = now e,
                  wl_expires_at = now e + timedelta_seconds lock_duration,
                  wl_last_heartbeat = now e,
                  wl_is_active = True\<rparr>;
               t2 = (case widget_lock of
                       Some old \<Rightarrow> upd_locks (put_lock new_lock) t1
                     | None \<Rightarrow> upd_locks (\<lambda>ls. ls @ [new_lock]) t1);
               t3 = (if widget_id \<notin> set (us_locked_widgets user_session)
                     then upd_sessions
                            (put_session
                               (user_session
                                  \<lparr>us_locked_widgets :=
                                     us_locked_widgets user_session @ [widget_id],
                                   us_last_activity := now e\<rparr>)) t2
                     else t2)
           in if fault = Some LockCommitFails then (Inl StoreError, t3)
              else if fault = Some LockRefreshFails then (Inl StoreError, commit t3)
              else (Inr new_lock, commit t3)))"

definition acquire_body ::
  "env \<Rightarrow> acquire_fault option \<Rightarrow> txn \<Rightarrow> uuid \<Rightarrow> uuid \<Rightarrow> user_info \<Rightarrow> int
     \<Rightarrow> (error + widget_lock) \<times> txn" where
  "acquire_body e fault t dashboard_id widget_id ui lock_duration =
     (if fault = Some LockSelectFails then (Inl StoreError, t)
      else
        case scalar_one_or_none
               (filter (\<lambda>l. wl_widget_id l = widget_id) (widget_locks (working t))) of
          Inl err \<Rightarrow> (Inl err, t)
        | Inr None \<Rightarrow> acquire_upsert e fault t dashboard_id widget_id ui lock_duration None
        | Inr (Some widget_lock) \<Rightarrow>
            if wl_is_active widget_lock \<and> now e < wl_expires_at widget_lock
               \<and> wl_user_id widget_lock \<noteq> ui_user_id ui
            then (Inl (ValueError (''Widget is currently locked by ''
                                     @ wl_user_name widget_lock)), t)
            else acquire_upsert e fault t dashboard_id widget_id ui lock_duration
                   (Some widget_lock))"

definition acquire_widget_lock_core ::
  "env \<Rightarrow> acquire_fault option \<Rightarrow> txn \<Rightarrow> uuid \<Rightarrow> uuid \<Rightarrow> user_info \<Rightarrow> int
     \<Rightarrow> (error + widget_lock) \<times> txn" where
  "acquire_widget_lock_core e fault t dashboard_id widget_id ui lock_duration =
     (case acquire_body e fault t dashboard_id widget_id ui lock_duration of
        (Inl err, t') \<Rightarrow> (Inl err, rollback t')
      | (Inr l, t') \<Rightarrow> (Inr l, t'))"

text \<open>\<^verbatim>\<open>CoreWidgetLocking.refresh_widget_lock\<close>: one UPDATE by widget_id, then the object is
  re-read.\<close>

definition refresh_widget_lock_core ::
  "env \<Rightarrow> txn \<Rightarrow> widget_lock \<Rightarrow> int \<Rightarrow> widget_lock \<times> txn" where
  "refresh_widget_lock_core e t widget_lock lock_duration =
     (let new_expires_at = now e + timedelta_seconds lock_duration;
          t1 = upd_locks
                 (map (\<lambda>r. if wl_widget_id r = wl_widget_id widget_lock
                            then r\<lparr>wl_expires_at := new_expires_at, wl_last_heartbeat := now e\<rparr>
                            else r)) t
      in (widget_lock\<lparr>wl_expires_at := new_expires_at, wl_last_heartbeat := now e\<rparr>, t1))"

text \<open>The active \<^verbatim>\<open>CoreWidgetLocking.release_widget_lock\<close> (the commented-out one is dead
  code).\<close>

definition release_widget_lock_core ::
  "txn \<Rightarrow> uuid \<Rightarrow> uuid \<Rightarrow> user_info \<Rightarrow> (error + bool) \<times> txn" where
  "release_widget_lock_core t dashboard_id widget_id ui =
     (case scalar_one_or_none
             (filter (\<lambda>l. wl_widget_id l = widget_id \<and> wl_dashboard_id l = dashboard_id
                            \<and> wl_is_active l)
                (widget_locks (working t))) of
        Inl err \<Rightarrow> (Inl err, rollback t)
      | Inr None \<Rightarrow> (Inr True, t)
      | Inr (Some widget_lock) \<Rightarrow>
          if wl_user_id widget_lock \<noteq> ui_user_id ui then (Inr False, t)
          else
            (let t1 = upd_locks (put_lock (widget_lock\<lparr>wl_is_active := False\<rparr>)) t;
                 t2 = (case get_user_session t1 (wl_session_id widget_lock) of
                         None \<Rightarrow> t1
                       | Some user_session \<Rightarrow>
                           if widget_id \<in> set (us_locked_widgets user_session)
                           then upd_sessions
                                  (put_session
                                     (user_session
                                        \<lparr>us_locked_widgets :=
                                           filter (\<lambda>w. w \<noteq> widget_id)
                                             (us_locked_widgets user_session)\<rparr>)) t1
                           else t1)
             in (Inr True, commit t2)))"

text \<open>
  \<^verbatim>\<open>CoreWidgetLocking.cleanup_stale_sessions_and_locks\<close>. The loop over the stale sessions
  is \<open>release_stale\<close>. The function flushes twice and returns; it never commits.
  \<open>store_ok = False\<close> stands for a store call that raises during the sweep.
\<close>

primrec release_stale :: "user_session list \<Rightarrow> txn \<Rightarrow> txn" where
  "release_stale [] t = t"
| "release_stale (user_session # rest) t =
     release_stale rest
       (upd_sessions (put_session (user_session\<lparr>us_is_active := False\<rparr>))
          (upd_locks (filter (\<lambda>l. wl_session_id l \<noteq> us_session_id user_session)) t))"

definition cleanup_stale_sessions_and_locks_core ::
  "env \<Rightarrow> bool \<Rightarrow> txn \<Rightarrow> int \<Rightarrow> (error + nat \<times> nat) \<times> txn" where
  "cleanup_stale_sessions_and_locks_core e store_ok t session_timeout_minutes =
     (if \<not> store_ok then (Inl StoreError, rollback t)
      else
        (let expired_locks_count =
               length (filter (\<lambda>l. wl_expires_at l \<le> now e) (widget_locks (working t)));
             t1 = upd_locks (filter (\<lambda>l. \<not> wl_expires_at l \<le> now e)) t;
             stale_time = now e - timedelta_minutes session_timeout_minutes;
             stale_sessions =
               filter (\<lambda>s. us_last_activity s \<le> stale_time \<and> us_is_active s)
                 (user_sessions (working t1));
             t2 = release_stale stale_sessions t1;
             stale_sessions_count = length stale_sessions
         in (Inr (expired_locks_count, stale_sessions_count), t2)))"

text \<open>\<^verbatim>\<open>CoreWidgetLocking.log_collaboration_event\<close>: add the event and flush.\<close>

definition log_collaboration_event ::
  "env \<Rightarrow> txn \<Rightarrow> uuid \<Rightarrow> user_info \<Rightarrow> string \<Rightarrow> uuid option
     \<Rightarrow> (string \<times> int) list option \<Rightarrow> txn" where
  "log_collaboration_event e t dashboard_id ui event_type widget_id event_data =
     upd_events
       (\<lambda>es. es @ [\<lparr>ev_event_id = uuid4_event e,
                     ev_dashboard_id = dashboard_id,
                     ev_widget_id = widget_id,
                     ev_user_id = ui_user_id ui,
                     ev_user_name = get_user_name ui,
                     ev_event_type = event_type,
                     ev_event_data = event_data,
                     ev_created_at = now e\<rparr>]) t"

section \<open>The shared cache and the response schemas\<close>

record widget_lock_schema =
  ls_widget_id :: uuid
  ls_dashboard_id :: uuid
  ls_session_id :: uuid
  ls_user_id :: uuid
  ls_user_name :: string
  ls_locked_at :: datetime
  ls_expires_at :: datetime
  ls_last_heartbeat :: datetime
  ls_time_remaining :: real

record widget_lock_status_response =
  st_widget_id :: uuid
  st_is_locked :: bool
  st_locked_by :: "string option"
  st_locked_by_user_id :: "uuid option"
  st_locked_at :: "datetime option"
  st_expires_at :: "datetime option"
  st_time_remaining :: real
  st_can_acquire :: bool

record lock_acquisition_response =
  la_success :: bool
  la_widget_id :: uuid
  la_session_id :: uuid
  la_expires_at :: datetime
  la_message :: string

record heartbeat_response =
  hb_success :: bool
  hb_widget_id :: uuid
  hb_expires_at :: datetime
  hb_message :: string

text \<open>
  The shared cache holds, per key, a value and the instant at which its TTL runs out.
  The keys \<^verbatim>\<open>widget_lock:<id>\<close> and \<^verbatim>\<open>widget_status:<id>\<close> are two maps indexed by the
  widget id. An entry is served up to and including the instant of its expiry.
  \<^verbatim>\<open>get_shared\<close>, \<^verbatim>\<open>set_shared\<close> and \<^verbatim>\<open>delete_shared\<close> catch the backend's
  errors, so they never raise: a failed get is a miss and a failed set writes nothing. The
  service stores these entries without tags; \<^verbatim>\<open>delete_multi_level_by_tags\<close> is taken to
  leave them in place. The \<^verbatim>\<open>dashboard_sessions\<close> entries (the presence view) are left
  out.
\<close>

record cache =
  widget_lock_cache :: "uuid \<rightharpoonup> widget_lock_schema \<times> datetime"
  widget_status_cache :: "uuid \<rightharpoonup> widget_lock_status_response \<times> datetime"

definition CACHE_TTL_DEFAULT :: int where
  "CACHE_TTL_DEFAULT = 300"

definition get_shared :: "datetime \<Rightarrow> ('k \<rightharpoonup> 'v \<times> datetime) \<Rightarrow> 'k \<Rightarrow> 'v option" where
  "get_shared n c k =
     (case c k of None \<Rightarrow> None | Some (v, expiry) \<Rightarrow> if n \<le> expiry then Some v else None)"

definition set_shared ::
  "datetime \<Rightarrow> ('k \<rightharpoonup> 'v \<times> datetime) \<Rightarrow> 'k \<Rightarrow> 'v \<Rightarrow> int \<Rightarrow> ('k \<rightharpoonup> 'v \<times> datetime)" where
  "set_shared n c k v ttl =
     c(k \<mapsto> (v, n + timedelta_seconds (if ttl = 0 then CACHE_TTL_DEFAULT else ttl)))"

definition delete_shared :: "('k \<rightharpoonup> 'v \<times> datetime) \<Rightarrow> 'k \<Rightarrow> ('k \<rightharpoonup> 'v \<times> datetime)" where
  "delete_shared c k = c(k := None)"

record system =
  store :: db
  shared_cache :: cache

definition to_schema :: "datetime \<Rightarrow> widget_lock \<Rightarrow> widget_lock_schema" where
  "to_schema n l =
     \<lparr>ls_widget_id = wl_widget_id l,
      ls_dashboard_id = wl_dashboard_id l,
      ls_session_id = wl_session_id l,
      ls_user_id = wl_user_id l,
      ls_user_name = wl_user_name l,
      ls_locked_at = wl_locked_at l,
      ls_expires_at = wl_expires_at l,
      ls_last_heartbeat = wl_last_heartbeat l,
      ls_time_remaining = time_remaining n l\<rparr>"

definition cache_lock :: "datetime \<Rightarrow> widget_lock \<Rightarrow> int \<Rightarrow> system \<Rightarrow> system" where
  "cache_lock n l ttl s =
     s\<lparr>shared_cache := (shared_cache s)
        \<lparr>widget_lock_cache :=
           set_shared n (widget_lock_cache (shared_cache s)) (wl_widget_id l) (to_schema n l) ttl\<rparr>\<rparr>"

text \<open>\<^verbatim>\<open>str(e)\<close> of an exception.\<close>

fun str_of_error :: "error \<Rightarrow> string" where
  "str_of_error (ValueError m) = m"
| "str_of_error MultipleResultsFound = ''Multiple rows were found when one or none was required''"
| "str_of_error IntegrityError = ''IntegrityError''"
| "str_of_error StoreError = ''StoreError''"
| "str_of_error ValidationError = ''ValidationError''"
| "str_of_error InitError = ''InitError''"

section \<open>WidgetLockingService\<close>

text \<open>
  The service is taken as initialised. Each \<^verbatim>\<open>async with db_manager.session()\<close> block
  is \<open>begin_session\<close> on the store, the block's body, and \<open>close_session\<close>.
\<close>

definition acquire_failed :: "env \<Rightarrow> uuid \<Rightarrow> error \<Rightarrow> lock_acquisition_response" where
  "acquire_failed e widget_id err =
     \<lparr>la_success = False,
      la_widget_id = widget_id,
      la_session_id = uuid4_response e,
      la_expires_at = now e,
      la_message = ''Failed to acquire lock: '' @ str_of_error err\<rparr>"

definition acquire_locked_by :: "env \<Rightarrow> uuid \<Rightarrow> uuid \<Rightarrow> datetime \<Rightarrow> string
     \<Rightarrow> lock_acquisition_response" where
  "acquire_locked_by e widget_id session_id expires_at user_name =
     \<lparr>la_success = False,
      la_widget_id = widget_id,
      la_session_id = session_id,
      la_expires_at = expires_at,
      la_message = ''Widget is locked by '' @ user_name\<rparr>"

text \<open>The part of \<^verbatim>\<open>acquire_widget_lock\<close> after the two checks: the core call, the cache
  write, the audit event (logged in a session of its own that is closed without a
  commit).\<close>

definition acquire_and_publish ::
  "env \<Rightarrow> acquire_fault option \<Rightarrow> system \<Rightarrow> uuid \<Rightarrow> uuid \<Rightarrow> user_info \<Rightarrow> int
     \<Rightarrow> lock_acquisition_response \<times> system" where
  "acquire_and_publish e fault s dashboard_id widget_id ui lock_duration =
     (case acquire_widget_lock_core e fault (begin_session (store s))
             dashboard_id widget_id ui lock_duration of
        (Inl err, t) \<Rightarrow> (acquire_failed e widget_id err, s\<lparr>store := close_session t\<rparr>)
      | (Inr widget_lock, t) \<Rightarrow>
          (let s1 = s\<lparr>store := close_session t\<rparr>;
               s2 = cache_lock (now e) widget_lock (min lock_duration 30) s1
           in if fault = Some EventLogFails
              then (acquire_failed e widget_id StoreError, s2)
              else
                (\<lparr>la_success = True,
                  la_widget_id = widget_id,
                  la_session_id = wl_session_id widget_lock,
                  la_expires_at = wl_expires_at widget_lock,
                  la_message = ''Widget lock acquired successfully''\<rparr>,
                 s2\<lparr>store :=
                      close_session
                        (log_collaboration_event e (begin_session (store s2))
                           dashboard_id ui ''lock_acquired'' (Some widget_id)
                           (Some [(''duration'', lock_duration)]))\<rparr>)))"

text \<open>The store check of \<^verbatim>\<open>acquire_widget_lock\<close> (service lines 93 to 103).\<close>

definition acquire_from_store ::
  "env \<Rightarrow> acquire_fault option \<Rightarrow> system \<Rightarrow> uuid \<Rightarrow> uuid \<Rightarrow> user_info \<Rightarrow> int
     \<Rightarrow> lock_acquisition_response \<times> system" where
  "acquire_from_store e fault s dashboard_id widget_id ui lock_duration =
     (if fault = Some CheckSelectFails then (acquire_failed e widget_id StoreError, s)
      else
        case get_active_widget_lock (begin_session (store s)) widget_id of
          Inl err \<Rightarrow> (acquire_failed e widget_id err, s)
        | Inr None \<Rightarrow> acquire_and_publish e fault s dashboard_id widget_id ui lock_duration
        | Inr (Some db_lock) \<Rightarrow>
            if \<not> is_expired (now e) db_lock
            then (acquire_locked_by e widget_id (wl_session_id db_lock)
                    (wl_expires_at db_lock) (wl_user_name db_lock), s)
            else acquire_and_publish e fault s dashboard_id widget_id ui lock_duration)"

text \<open>\<^verbatim>\<open>WidgetLockingService.acquire_widget_lock\<close>: the cache check, then the store.\<close>

definition acquire_widget_lock ::
  "env \<Rightarrow> acquire_fault option \<Rightarrow> system \<Rightarrow> uuid \<Rightarrow> uuid \<Rightarrow> user_info \<Rightarrow> int
     \<Rightarrow> lock_acquisition_response \<times> system" where
  "acquire_widget_lock e fault s dashboard_id widget_id ui lock_duration =
     (case get_shared (now e) (widget_lock_cache (shared_cache s)) widget_id of
        None \<Rightarrow> acquire_from_store e fault s dashboard_id widget_id ui lock_duration
      | Some existing_lock_data \<Rightarrow>
          if ls_time_remaining existing_lock_data > 0
          then (acquire_locked_by e widget_id (uuid4_response e) (now e)
                  (ls_user_name existing_lock_data), s)
          else acquire_from_store e fault s dashboard_id widget_id ui lock_duration)"

text \<open>\<^verbatim>\<open>WidgetLockingService.refresh_widget_lock\<close>; the renewal window is the service's
  \<^verbatim>\<open>lock_expiration_threshold\<close>, two minutes.\<close>

definition lock_expiration_threshold :: int where
  "lock_expiration_threshold = 120"

definition msg_not_owned :: string where
  "msg_not_owned = ''You don'' @ [CHR 0x27] @ ''t own this widget lock''"

definition touch_session :: "env \<Rightarrow> uuid \<Rightarrow> txn \<Rightarrow> txn" where
  "touch_session e session_id t =
     (case get_user_session t session_id of
        None \<Rightarrow> t
      | Some user_session \<Rightarrow>
          upd_sessions (put_session (user_session\<lparr>us_last_activity := now e\<rparr>)) t)"

definition refresh_widget_lock ::
  "env \<Rightarrow> system \<Rightarrow> uuid \<Rightarrow> uuid \<Rightarrow> user_info \<Rightarrow> heartbeat_response \<times> system" where
  "refresh_widget_lock e s dashboard_id widget_id ui =
     (case get_active_widget_lock (begin_session (store s)) widget_id of
        Inl err \<Rightarrow>
          (\<lparr>hb_success = False, hb_widget_id = widget_id, hb_expires_at = now e,
            hb_message = ''Internal Error: '' @ str_of_error err\<rparr>, s)
      | Inr None \<Rightarrow>
          (\<lparr>hb_success = False, hb_widget_id = widget_id, hb_expires_at = now e,
            hb_message = ''Widget lock not found or already released''\<rparr>, s)
      | Inr (Some widget_lock) \<Rightarrow>
          if wl_user_id widget_lock \<noteq> ui_user_id ui
          then (\<lparr>hb_success = False, hb_widget_id = widget_id,
                 hb_expires_at = wl_expires_at widget_lock,
                 hb_message = msg_not_owned\<rparr>, s)
          else if is_expired (now e) widget_lock
          then (\<lparr>hb_success = False, hb_widget_id = widget_id,
                 hb_expires_at = wl_expires_at widget_lock,
                 hb_message = ''Widget lock has expired''\<rparr>, s)
          else
            (case refresh_widget_lock_core e (begin_session (store s)) widget_lock
                    lock_expiration_threshold of
               (updated_lock, t1) \<Rightarrow>
                 (let t2 = commit (touch_session e (wl_session_id widget_lock) t1);
                      s1 = s\<lparr>store := close_session t2\<rparr>
                  in (\<lparr>hb_success = True, hb_widget_id = widget_id,
                       hb_expires_at = wl_expires_at updated_lock,
                       hb_message = ''Widget lock heartbeat refreshed''\<rparr>,
                      cache_lock (now e) updated_lock 30 s1))))"

text \<open>\<^verbatim>\<open>WidgetLockingService.release_widget_lock\<close>.\<close>

definition release_widget_lock ::
  "env \<Rightarrow> system \<Rightarrow> uuid \<Rightarrow> uuid \<Rightarrow> user_info \<Rightarrow> bool \<times> system" where
  "release_widget_lock e s dashboard_id widget_id ui =
     (case release_widget_lock_core (begin_session (store s)) dashboard_id widget_id ui of
        (Inl err, t) \<Rightarrow> (False, s\<lparr>store := close_session t\<rparr>)
      | (Inr success, t) \<Rightarrow>
          (let s1 = s\<lparr>store := close_session t\<rparr>
           in if \<not> success then (False, s1)
              else
                (let s2 = s1\<lparr>shared_cache := (shared_cache s1)
                              \<lparr>widget_lock_cache :=
                                 delete_shared (widget_lock_cache (shared_cache s1)) widget_id,
                               widget_status_cache :=
                                 delete_shared (widget_status_cache (shared_cache s1)) widget_id\<rparr>\<rparr>
                 in (True,
                     s2\<lparr>store :=
                          close_session
                            (commit
                               (log_collaboration_event e (begin_session (store s2))
                                  dashboard_id ui ''lock_released'' (Some widget_id) None))\<rparr>))))"

text \<open>
  \<^verbatim>\<open>WidgetLockingService.get_widget_lock_status\<close>. Its \<open>current_user_id\<close> is compared
  with the lock row's \<open>user_id\<close> as it comes, without the conversion that acquire,
  refresh and release apply. \<open>py_user_id\<close> is the Python value passed: a
  \<^verbatim>\<open>uuid.UUID\<close> object, or the \<^verbatim>\<open>str\<close> that spells the UUID, which is what the
  authentication layer puts into \<^verbatim>\<open>current_user["user_id"]\<close>. A UUID object and a str
  are never equal under \<^verbatim>\<open>==\<close>.

  \<open>status_fault\<close> names what goes wrong during the call. \<open>InitFails\<close> (the service
  is not initialised yet and setting up the cache manager raises) and \<open>QueryFails\<close>
  (the store query raises) raise inside the \<^verbatim>\<open>try\<close> block. \<open>CacheGetFails\<close> and
  \<open>CacheSetFails\<close> are errors of the cache backend, which \<^verbatim>\<open>get_shared\<close> and
  \<^verbatim>\<open>set_shared\<close> catch: the get returns None, the set writes nothing.
\<close>

datatype py_user_id = UUID_obj uuid | Str_obj uuid

datatype status_fault = InitFails | QueryFails | CacheGetFails | CacheSetFails

definition unlocked_status :: "uuid \<Rightarrow> widget_lock_status_response" where
  "unlocked_status widget_id =
     \<lparr>st_widget_id = widget_id,
      st_is_locked = False,
      st_locked_by = None,
      st_locked_by_user_id = None,
      st_locked_at = None,
      st_expires_at = None,
      st_time_remaining = 0,
      st_can_acquire = True\<rparr>"

definition locked_status ::
  "env \<Rightarrow> uuid \<Rightarrow> py_user_id \<Rightarrow> widget_lock \<Rightarrow> widget_lock_status_response" where
  "locked_status e widget_id current_user_id widget_lock =
     \<lparr>st_widget_id = widget_id,
      st_is_locked = True,
      st_locked_by = Some (wl_user_name widget_lock),
      st_locked_by_user_id = Some (wl_user_id widget_lock),
      st_locked_at = Some (wl_locked_at widget_lock),
      st_expires_at = Some (wl_expires_at widget_lock),
      st_time_remaining = time_remaining (now e) widget_lock,
      st_can_acquire = (UUID_obj (wl_user_id widget_lock) = current_user_id)\<rparr>"

definition cache_status :: "datetime \<Rightarrow> uuid \<Rightarrow> widget_lock_status_response \<Rightarrow> system \<Rightarrow> system" where
  "cache_status n widget_id status s =
     s\<lparr>shared_cache := (shared_cache s)
        \<lparr>widget_status_cache :=
           set_shared n (widget_status_cache (shared_cache s)) widget_id status 2\<rparr>\<rparr>"

text \<open>The \<^verbatim>\<open>try\<close> block: \<open>Inl\<close> is an exception raised inside it.\<close>

definition status_try ::
  "env \<Rightarrow> status_fault set \<Rightarrow> system \<Rightarrow> uuid \<Rightarrow> py_user_id
     \<Rightarrow> error + widget_lock_status_response \<times> system" where
  "status_try e faults s widget_id current_user_id =
     (if InitFails \<in> faults then Inl InitError
      else
        case (if CacheGetFails \<in> faults then None
              else get_shared (now e) (widget_status_cache (shared_cache s)) widget_id) of
          Some cached_status \<Rightarrow> Inr (cached_status, s)
        | None \<Rightarrow>
            if QueryFails \<in> faults then Inl StoreError
            else
              (case get_active_widget_lock (begin_session (store s)) widget_id of
                 Inl err \<Rightarrow> Inl err
               | Inr None \<Rightarrow>
                   Inr (unlocked_status widget_id,
                        if CacheSetFails \<in> faults then s
                        else cache_status (now e) widget_id (unlocked_status widget_id) s)
               | Inr (Some widget_lock) \<Rightarrow>
                   (let status =
                          (if now e > wl_expires_at widget_lock then unlocked_status widget_id
                           else locked_status e widget_id current_user_id widget_lock)
                    in Inr (status,
                            if CacheSetFails \<in> faults then s
                            else cache_status (now e) widget_id status s))))"

definition get_widget_lock_status ::
  "env \<Rightarrow> status_fault set \<Rightarrow> system \<Rightarrow> uuid \<Rightarrow> py_user_id
     \<Rightarrow> widget_lock_status_response \<times> system" where
  "get_widget_lock_status e faults s widget_id current_user_id =
     (case status_try e faults s widget_id current_user_id of
        Inl err \<Rightarrow> (unlocked_status widget_id, s)
      | Inr r \<Rightarrow> r)"

text \<open>
  \<^verbatim>\<open>WidgetLockingService.stop_dashboard_editing\<close>. With no session at all the orphaned
  locks are marked inactive and flushed, and the function returns True from inside the
  \<^verbatim>\<open>async with\<close> block, without a commit. With an active session the session is marked
  inactive and committed; the audit event that follows is logged in a session of its own
  that is closed without a commit.
\<close>

definition deactivate_orphans :: "uuid \<Rightarrow> uuid \<Rightarrow> widget_lock list \<Rightarrow> widget_lock list" where
  "deactivate_orphans dashboard_id user_id ls =
     map (\<lambda>l. if wl_dashboard_id l = dashboard_id \<and> wl_user_id l = user_id \<and> wl_is_active l
               then l\<lparr>wl_is_active := False\<rparr> else l) ls"

definition stop_editing_session ::
  "txn \<Rightarrow> uuid \<Rightarrow> uuid \<Rightarrow> (error + bool) \<times> txn" where
  "stop_editing_session t dashboard_id user_id =
     (case scalar_one_or_none
             (filter (\<lambda>s. us_dashboard_id s = dashboard_id \<and> us_user_id s = user_id
                            \<and> us_is_active s)
                (user_sessions (working t))) of
        Inl err \<Rightarrow> (Inl err, t)
      | Inr (Some user_session) \<Rightarrow>
          (Inr True, commit (upd_sessions (put_session (user_session\<lparr>us_is_active := False\<rparr>)) t))
      | Inr None \<Rightarrow>
          (case scalar_one_or_none
                  (filter (\<lambda>s. us_dashboard_id s = dashboard_id \<and> us_user_id s = user_id
                                 \<and> \<not> us_is_active s)
                     (user_sessions (working t))) of
             Inl err \<Rightarrow> (Inl err, t)
           | Inr (Some inactive_session) \<Rightarrow> (Inr True, t)
           | Inr None \<Rightarrow> (Inr True, upd_locks (deactivate_orphans dashboard_id user_id) t)))"

definition stop_dashboard_editing ::
  "env \<Rightarrow> system \<Rightarrow> uuid \<Rightarrow> uuid \<Rightarrow> bool \<times> system" where
  "stop_dashboard_editing e s dashboard_id user_id =
     (case stop_editing_session (begin_session (store s)) dashboard_id user_id of
        (Inl err, t) \<Rightarrow> (False, s\<lparr>store := close_session t\<rparr>)
      | (Inr r, t) \<Rightarrow> (r, s\<lparr>store := close_session t\<rparr>))"



text \<open>\<^verbatim>\<open>WidgetLockingService.cleanup_stale_sessions_and_locks\<close>: the core sweep with its
  default timeout of five minutes, inside one \<^verbatim>\<open>async with\<close> block.\<close>

definition cleanup_stale_sessions_and_locks ::
  "env \<Rightarrow> bool \<Rightarrow> system \<Rightarrow> (nat \<times> nat) \<times> system" where
  "cleanup_stale_sessions_and_locks e store_ok s =
     (case cleanup_stale_sessions_and_locks_core e store_ok (begin_session (store s)) 5 of
        (Inl err, t) \<Rightarrow> ((0, 0), s\<lparr>store := close_session t\<rparr>)
      | (Inr counts, t) \<Rightarrow> (counts, s\<lparr>store := close_session t\<rparr>))"

section \<open>The request schema and the route\<close>

text \<open>
  \<^verbatim>\<open>WidgetLockAcquireSchema.lock_duration\<close> is \<^verbatim>\<open>Field(default=60, ge=30, le=300)\<close>: a
  request whose value is out of range is rejected with a validation error. The route
  \<^verbatim>\<open>POST /dashboards/{id}/widgets/lock\<close> passes the validated value to the service and
  turns a negative result into HTTP 409.
\<close>

definition validate_lock_duration :: "int option \<Rightarrow> error + int" where
  "validate_lock_duration v =
     (case v of
        None \<Rightarrow> Inr 60
      | Some d \<Rightarrow> if 30 \<le> d \<and> d \<le> 300 then Inr d else Inl ValidationError)"

datatype http_error = HTTPException nat string

definition route_acquire_widget_lock ::
  "env \<Rightarrow> acquire_fault option \<Rightarrow> system \<Rightarrow> uuid \<Rightarrow> uuid \<Rightarrow> int option \<Rightarrow> user_info
     \<Rightarrow> (http_error + lock_acquisition_response) \<times> system" where
  "route_acquire_widget_lock e fault s dashboard_id widget_id lock_duration ui =
     (case validate_lock_duration lock_duration of
        Inl err \<Rightarrow> (Inl (HTTPException 422 (str_of_error err)), s)
      | Inr d \<Rightarrow>
          (case acquire_widget_lock e fault s dashboard_id widget_id ui d of
             (result, s') \<Rightarrow>
               if \<not> la_success result then (Inl (HTTPException 409 (la_message result)), s')
               else (Inr result, s')))"

text \<open>The route \<^verbatim>\<open>GET /dashboards/{dashboard_id}/widgets/{widget_id}/status\<close> hands the service
  \<^verbatim>\<open>current_user["user_id"]\<close>, a str.\<close>

definition route_get_widget_lock_status ::
  "env \<Rightarrow> status_fault set \<Rightarrow> system \<Rightarrow> uuid \<Rightarrow> uuid
     \<Rightarrow> widget_lock_status_response \<times> system" where
  "route_get_widget_lock_status e faults s widget_id user_id =
     get_widget_lock_status e faults s widget_id (Str_obj user_id)"

section \<open>Predicates of the specification\<close>

text \<open>Session consistency: the widgets a session lists are exactly the widgets whose lock
  row is active and carries the session's id.\<close>

definition session_consistent :: "db \<Rightarrow> bool" where
  "session_consistent d =
     list_all
       (\<lambda>s. set (us_locked_widgets s) =
            set (map wl_widget_id
                   (filter (\<lambda>l. wl_is_active l \<and> wl_session_id l = us_session_id s)
                      (widget_locks d))))
       (user_sessions d)"

text \<open>Every view held in the status cache has a non-negative \<open>time_remaining\<close>.\<close>

definition status_cache_sane :: "system \<Rightarrow> bool" where
  "status_cache_sane s =
     (\<forall>w v x. widget_status_cache (shared_cache s) w = Some (v, x)
                \<longrightarrow> 0 \<le> st_time_remaining v)"




text \<open>The audit event that \<^verbatim>\<open>release_widget_lock\<close> logs.\<close>

definition released_event :: "env \<Rightarrow> uuid \<Rightarrow> uuid \<Rightarrow> user_info \<Rightarrow> collaboration_event" where
  "released_event e dashboard_id widget_id ui =
     \<lparr>ev_event_id = uuid4_event e,
      ev_dashboard_id = dashboard_id,
      ev_widget_id = Some widget_id,
      ev_user_id = ui_user_id ui,
      ev_user_name = get_user_name ui,
      ev_event_type = ''lock_released'',
      ev_event_data = None,
      ev_created_at = now e\<rparr>"


definition empty_db :: db where
  "empty_db = \<lparr>widget_locks = [], user_sessions = [], collaboration_events = []\<rparr>"

definition empty_cache :: cache where
  "empty_cache = \<lparr>widget_lock_cache = Map.empty, widget_status_cache = Map.empty\<rparr>"

section \<open>Example states\<close>

text \<open>
  Two users and the states reached by running the operations from the empty system; the
  closed theorems below are evaluated on them. At \<open>at_seconds n\<close> the clock stands
  \<open>n\<close> seconds after the epoch.
\<close>

definition at_seconds :: "int \<Rightarrow> env" where
  "at_seconds n =
     \<lparr>now = timedelta_seconds n, uuid4_session = 100 + nat n, uuid4_response = 900,
      uuid4_event = 901\<rparr>"

definition alice :: user_info where
  "alice = \<lparr>ui_user_id = 7, ui_user_name = Some ''A'', ui_user_email = None,
            ui_client_info = None\<rparr>"

definition bob :: user_info where
  "bob = \<lparr>ui_user_id = 8, ui_user_name = Some ''B'', ui_user_email = None,
          ui_client_info = None\<rparr>"

definition initial_system :: system where
  "initial_system = \<lparr>store = empty_db, shared_cache = empty_cache\<rparr>"

text \<open>Alice has acquired widget 1 of dashboard 5 at second 0, with the given lease.\<close>

definition alice_holds :: "int \<Rightarrow> system" where
  "alice_holds lease =
     snd (acquire_widget_lock (at_seconds 0) None initial_system 5 1 alice lease)"

definition alice_lock :: "int \<Rightarrow> widget_lock" where
  "alice_lock lease =
     \<lparr>wl_widget_id = 1, wl_dashboard_id = 5, wl_session_id = 100, wl_user_id = 7,
      wl_user_name = ''A'', wl_locked_at = 0, wl_expires_at = timedelta_seconds lease,
      wl_last_heartbeat = 0, wl_is_active = True\<rparr>"

definition alice_session :: "uuid list \<Rightarrow> user_session" where
  "alice_session ws =
     \<lparr>us_session_id = 100, us_dashboard_id = 5, us_user_id = 7, us_user_name = ''A'',
      us_user_email = None, us_client_info = None, us_connected_at = 0,
      us_last_activity = 0, us_is_active = True, us_locked_widgets = ws\<rparr>"

text \<open>Alice has acquired widget 1 at second 0 with a lease of 60 seconds and has left
  edit mode at second 5, her lock still in place.\<close>

definition alice_stopped :: system where
  "alice_stopped = snd (stop_dashboard_editing (at_seconds 5) (alice_holds 60) 5 7)"


section \<open>Reachable states\<close>


section \<open>Rows selected by a primary key\<close>

lemma distinct_key_eq:
  "distinct (map k xs) \<Longrightarrow> x \<in> set xs \<Longrightarrow> y \<in> set xs \<Longrightarrow> k x = k y \<Longrightarrow> x = y"
  by (meson distinct_map inj_onD)

lemma filter_key_none:
  "(\<forall>x \<in> set xs. \<not> Q x) \<Longrightarrow> filter Q xs = []"
  by (induction xs) auto

lemma filter_key_single:
  assumes "distinct (map k xs)" "x \<in> set xs" "Q x" "\<And>y. Q y \<Longrightarrow> k y = k x"
  shows "filter Q xs = [x]"
proof -
  have other: "\<not> Q y" if "y \<in> set xs" "y \<noteq> x" for y
  proof
    assume "Q y"
    then have "k y = k x" by (rule assms(4))
    with assms(1) that(1) assms(2) have "y = x" by (rule distinct_key_eq)
    with that(2) show False by contradiction
  qed
  have "filter Q xs = filter (\<lambda>y. y = x) xs"
  proof (rule filter_cong[OF refl])
    fix y assume "y \<in> set xs"
    then show "Q y = (y = x)" using other[of y] assms(3) by (cases "y = x") simp_all
  qed
  moreover have "distinct xs" using assms(1) by (simp add: distinct_map)
  then have "filter (\<lambda>y. y = x) xs = [x]"
    using assms(2) by (induction xs) (auto simp: filter_empty_conv)
  ultimately show ?thesis by simp
qed

lemma put_as_map:
  assumes "distinct (map k xs)" "x \<in> set xs" "k (f x) = k x" "P x"
  shows "map (\<lambda>r. if k r = k (f x) then f x else r) xs
         = map (\<lambda>r. if k r = k x \<and> P r then f r else r) xs"
proof (rule map_cong[OF refl])
  fix r assume r: "r \<in> set xs"
  show "(if k r = k (f x) then f x else r) = (if k r = k x \<and> P r then f r else r)"
  proof (cases "k r = k x")
    case True
    have "r = x" using assms(1) r assms(2) True by (rule distinct_key_eq)
    then show ?thesis using assms(3,4) by simp
  next
    case False
    then show ?thesis using assms(3) by simp
  qed
qed

lemma map_id_unless:
  assumes "\<And>r. r \<in> set xs \<Longrightarrow> C r \<Longrightarrow> f r = r"
  shows "xs = map (\<lambda>r. if C r then f r else r) xs"
proof -
  have "map (\<lambda>r. if C r then f r else r) xs = map (\<lambda>r. r) xs"
  proof (rule map_cong[OF refl])
    fix r assume "r \<in> set xs"
    then show "(if C r then f r else r) = r" using assms[of r] by (cases "C r") simp_all
  qed
  then show ?thesis by simp
qed

lemma filter_neq_removeAll: "filter (\<lambda>x. x \<noteq> w) xs = removeAll w xs"
  by (induction xs) auto

lemma get_user_session_cases:
  assumes "distinct (map us_session_id (user_sessions (working t)))"
  shows "(get_user_session t sid = None
            \<and> (\<forall>s \<in> set (user_sessions (working t)). \<not> (us_session_id s = sid \<and> us_is_active s)))
         \<or> (\<exists>s. get_user_session t sid = Some s \<and> s \<in> set (user_sessions (working t))
                  \<and> us_session_id s = sid \<and> us_is_active s)"
proof (cases "\<exists>s \<in> set (user_sessions (working t)). us_session_id s = sid \<and> us_is_active s")
  case True
  then obtain s where s: "s \<in> set (user_sessions (working t))" "us_session_id s = sid" "us_is_active s"
    by blast
  have "filter (\<lambda>s. us_session_id s = sid \<and> us_is_active s) (user_sessions (working t)) = [s]"
    using assms s(1) by (rule filter_key_single) (simp_all add: s)
  then have "get_user_session t sid = Some s" by (simp add: get_user_session_def)
  with s show ?thesis by blast
next
  case False
  then have "filter (\<lambda>s. us_session_id s = sid \<and> us_is_active s) (user_sessions (working t)) = []"
    by (intro filter_key_none) blast
  then have "get_user_session t sid = None" by (simp add: get_user_session_def)
  with False show ?thesis by blast
qed

section \<open>ReleaseLock\<close>

lemma release_none:
  "\<forall>l \<in> set (widget_locks (working t)).
       \<not> (wl_widget_id l = w \<and> wl_dashboard_id l = d \<and> wl_is_active l)
   \<Longrightarrow> release_widget_lock_core t d w ui = (Inr True, t)"
  by (simp add: release_widget_lock_core_def filter_key_none)

lemma release_select:
  assumes "distinct (map wl_widget_id (widget_locks (working t)))"
    and "l \<in> set (widget_locks (working t))"
    and "wl_widget_id l = w" "wl_dashboard_id l = d" "wl_is_active l"
  shows "filter (\<lambda>l. wl_widget_id l = w \<and> wl_dashboard_id l = d \<and> wl_is_active l)
           (widget_locks (working t)) = [l]"
  using assms(1,2) by (rule filter_key_single) (simp_all add: assms)

lemma release_not_owner:
  assumes "distinct (map wl_widget_id (widget_locks (working t)))"
    and "l \<in> set (widget_locks (working t))"
    and "wl_widget_id l = w" "wl_dashboard_id l = d" "wl_is_active l"
    and "wl_user_id l \<noteq> ui_user_id ui"
  shows "release_widget_lock_core t d w ui = (Inr False, t)"
  using assms(6) by (simp add: release_widget_lock_core_def release_select[OF assms(1-5)])

lemma release_owner:
  assumes pk: "pk_unique (working t)"
    and l: "l \<in> set (widget_locks (working t))"
    and k: "wl_widget_id l = w" "wl_dashboard_id l = d" "wl_is_active l"
    and own: "wl_user_id l = ui_user_id ui"
  shows "\<exists>t'. release_widget_lock_core t d w ui = (Inr True, t')
           \<and> committed t' = working t'
           \<and> widget_locks (working t') =
               map (\<lambda>r. if wl_widget_id r = w then r\<lparr>wl_is_active := False\<rparr> else r)
                 (widget_locks (working t))
           \<and> user_sessions (working t') =
               map (\<lambda>s. if us_session_id s = wl_session_id l \<and> us_is_active s
                         then s\<lparr>us_locked_widgets := removeAll w (us_locked_widgets s)\<rparr> else s)
                 (user_sessions (working t))
           \<and> collaboration_events (working t') = collaboration_events (working t)"
proof -
  let ?t1 = "upd_locks (put_lock (l\<lparr>wl_is_active := False\<rparr>)) t"
  let ?f = "\<lambda>s. s\<lparr>us_locked_widgets := removeAll w (us_locked_widgets s)\<rparr>"
  let ?target = "map (\<lambda>s. if us_session_id s = wl_session_id l \<and> us_is_active s
                         then ?f s else s) (user_sessions (working t))"
  have dl: "distinct (map wl_widget_id (widget_locks (working t)))"
    and ds: "distinct (map us_session_id (user_sessions (working t)))"
    using pk by (simp_all add: pk_unique_def)
  have sel: "filter (\<lambda>l. wl_widget_id l = w \<and> wl_dashboard_id l = d \<and> wl_is_active l)
           (widget_locks (working t)) = [l]"
    using dl l k by (rule release_select)
  have "put_lock (l\<lparr>wl_is_active := False\<rparr>) (widget_locks (working t)) =
      map (\<lambda>r. if wl_widget_id r = wl_widget_id l \<and> True then r\<lparr>wl_is_active := False\<rparr> else r)
        (widget_locks (working t))"
    unfolding put_lock_def
    by (rule put_as_map[OF dl l, where f = "\<lambda>r. r\<lparr>wl_is_active := False\<rparr>"]) simp_all
  then have locks1: "widget_locks (working ?t1) =
      map (\<lambda>r. if wl_widget_id r = w then r\<lparr>wl_is_active := False\<rparr> else r)
        (widget_locks (working t))"
    using k(1) by (simp add: upd_locks_def)
  have sess1: "user_sessions (working ?t1) = user_sessions (working t)"
    by (simp add: upd_locks_def)
  have ev1: "collaboration_events (working ?t1) = collaboration_events (working t)"
    by (simp add: upd_locks_def)
  have ds1: "distinct (map us_session_id (user_sessions (working ?t1)))"
    using ds sess1 by simp
  from get_user_session_cases[OF ds1, of "wl_session_id l"]
  show ?thesis
  proof (elim disjE conjE exE)
    assume none: "get_user_session ?t1 (wl_session_id l) = None"
      and no: "\<forall>s \<in> set (user_sessions (working ?t1)).
                 \<not> (us_session_id s = wl_session_id l \<and> us_is_active s)"
    have "release_widget_lock_core t d w ui = (Inr True, commit ?t1)"
      using own none by (simp add: release_widget_lock_core_def sel)
    moreover have "user_sessions (working t) = ?target"
    proof (rule map_id_unless)
      fix r assume "r \<in> set (user_sessions (working t))"
        and "us_session_id r = wl_session_id l \<and> us_is_active r"
      with no sess1 have False by auto
      then show "?f r = r" ..
    qed
    ultimately show ?thesis
      using locks1 sess1 ev1 by (simp add: commit_def)
  next
    fix s
    assume some: "get_user_session ?t1 (wl_session_id l) = Some s"
      and s: "s \<in> set (user_sessions (working ?t1))" "us_session_id s = wl_session_id l"
             "us_is_active s"
    have sin: "s \<in> set (user_sessions (working t))" using s(1) sess1 by simp
    show ?thesis
    proof (cases "w \<in> set (us_locked_widgets s)")
      case True
      let ?t2 = "upd_sessions (put_session (s\<lparr>us_locked_widgets :=
                    filter (\<lambda>x. x \<noteq> w) (us_locked_widgets s)\<rparr>)) ?t1"
      have r: "release_widget_lock_core t d w ui = (Inr True, commit ?t2)"
        using own some True by (simp add: release_widget_lock_core_def sel)
      have "put_session (?f s) (user_sessions (working t)) =
              map (\<lambda>r. if us_session_id r = us_session_id s \<and> us_is_active r then ?f r else r)
                (user_sessions (working t))"
        unfolding put_session_def
        by (rule put_as_map[OF ds sin, where f = ?f and P = us_is_active]) (simp_all add: s)
      then have "user_sessions (working ?t2) = ?target"
        using s(2) by (simp add: upd_sessions_def upd_locks_def filter_neq_removeAll)
      moreover have "widget_locks (working ?t2) = widget_locks (working ?t1)"
        "collaboration_events (working ?t2) = collaboration_events (working ?t1)"
        by (simp_all add: upd_sessions_def)
      ultimately show ?thesis using r locks1 ev1 by (simp add: commit_def)
    next
      case False
      have r: "release_widget_lock_core t d w ui = (Inr True, commit ?t1)"
        using own some False by (simp add: release_widget_lock_core_def sel)
      have "user_sessions (working t) = ?target"
      proof (rule map_id_unless)
        fix r assume rin: "r \<in> set (user_sessions (working t))"
          and c: "us_session_id r = wl_session_id l \<and> us_is_active r"
        have "us_session_id r = us_session_id s" using c s(2) by simp
        with ds rin sin have "r = s" by (rule distinct_key_eq)
        with False show "?f r = r" by simp
      qed
      then show ?thesis using r locks1 sess1 ev1 by (simp add: commit_def)
    qed
  qed
qed

lemma release_service_result:
  assumes "release_widget_lock_core (begin_session (store s)) d w ui = (Inr True, t')"
    and "committed t' = working t'"
  shows "release_widget_lock e s d w ui =
           (True,
            s\<lparr>store := (working t')
                 \<lparr>collaboration_events :=
                    collaboration_events (working t') @ [released_event e d w ui]\<rparr>,
              shared_cache := (shared_cache s)
                 \<lparr>widget_lock_cache := delete_shared (widget_lock_cache (shared_cache s)) w,
                  widget_status_cache :=
                    delete_shared (widget_status_cache (shared_cache s)) w\<rparr>\<rparr>)"
  using assms
  by (simp add: release_widget_lock_def Let_def close_session_def commit_def
      begin_session_def log_collaboration_event_def upd_events_def released_event_def)

text \<open>
  Claim C4, as amended. \<^verbatim>\<open>WidgetLockingService.release_widget_lock\<close>, on a store whose
  primary keys are unique. With no active lock row for the widget on that dashboard it
  returns True and leaves every lock row and every session row as it was; it still deletes
  the widget's lock and status entries from the cache and commits a \<open>lock_released\<close>
  audit event. With an active lock row of another user it returns False and leaves the
  store and the cache as they were. With an active lock row of the requester it returns
  True; the widget's row has \<open>is_active = False\<close> and no other lock row changes; the
  widget is removed from \<open>locked_widgets\<close> of the session that owns the lock if that
  session is still active, and no session row other than the owning one changes; the cache
  entries are deleted and the audit event is committed as in the first case.
\<close>

theorem release_service_by_case:
  assumes "pk_unique (store s)"
  shows "((\<forall>l \<in> set (widget_locks (store s)).
             \<not> (wl_widget_id l = w \<and> wl_dashboard_id l = d \<and> wl_is_active l))
          \<longrightarrow> fst (release_widget_lock e s d w ui) = True
              \<and> widget_locks (store (snd (release_widget_lock e s d w ui))) =
                  widget_locks (store s)
              \<and> user_sessions (store (snd (release_widget_lock e s d w ui))) =
                  user_sessions (store s)
              \<and> collaboration_events (store (snd (release_widget_lock e s d w ui))) =
                  collaboration_events (store s) @ [released_event e d w ui]
              \<and> shared_cache (snd (release_widget_lock e s d w ui)) =
                  (shared_cache s)
                    \<lparr>widget_lock_cache := delete_shared (widget_lock_cache (shared_cache s)) w,
                     widget_status_cache :=
                       delete_shared (widget_status_cache (shared_cache s)) w\<rparr>)
       \<and> (\<forall>l \<in> set (widget_locks (store s)).
             wl_widget_id l = w \<and> wl_dashboard_id l = d \<and> wl_is_active l \<longrightarrow>
             (wl_user_id l \<noteq> ui_user_id ui
                \<longrightarrow> release_widget_lock e s d w ui = (False, s))
           \<and> (wl_user_id l = ui_user_id ui
                \<longrightarrow> fst (release_widget_lock e s d w ui) = True
                    \<and> widget_locks (store (snd (release_widget_lock e s d w ui))) =
                        map (\<lambda>r. if wl_widget_id r = w then r\<lparr>wl_is_active := False\<rparr> else r)
                          (widget_locks (store s))
                    \<and> list_all2
                        (\<lambda>r r'. (us_session_id r \<noteq> wl_session_id l \<longrightarrow> r' = r)
                               \<and> (us_session_id r = wl_session_id l \<and> us_is_active r
                                    \<longrightarrow> r' = r\<lparr>us_locked_widgets :=
                                                  removeAll w (us_locked_widgets r)\<rparr>))
                        (user_sessions (store s))
                        (user_sessions (store (snd (release_widget_lock e s d w ui))))
                    \<and> collaboration_events (store (snd (release_widget_lock e s d w ui))) =
                        collaboration_events (store s) @ [released_event e d w ui]
                    \<and> shared_cache (snd (release_widget_lock e s d w ui)) =
                        (shared_cache s)
                          \<lparr>widget_lock_cache :=
                             delete_shared (widget_lock_cache (shared_cache s)) w,
                           widget_status_cache :=
                             delete_shared (widget_status_cache (shared_cache s)) w\<rparr>))"
proof (rule conjI)
  let ?t = "begin_session (store s)"
  show "(\<forall>l \<in> set (widget_locks (store s)).
             \<not> (wl_widget_id l = w \<and> wl_dashboard_id l = d \<and> wl_is_active l))
          \<longrightarrow> fst (release_widget_lock e s d w ui) = True
              \<and> widget_locks (store (snd (release_widget_lock e s d w ui))) =
                  widget_locks (store s)
              \<and> user_sessions (store (snd (release_widget_lock e s d w ui))) =
                  user_sessions (store s)
              \<and> collaboration_events (store (snd (release_widget_lock e s d w ui))) =
                  collaboration_events (store s) @ [released_event e d w ui]
              \<and> shared_cache (snd (release_widget_lock e s d w ui)) =
                  (shared_cache s)
                    \<lparr>widget_lock_cache := delete_shared (widget_lock_cache (shared_cache s)) w,
                     widget_status_cache :=
                       delete_shared (widget_status_cache (shared_cache s)) w\<rparr>"
  proof (rule impI)
    assume "\<forall>l \<in> set (widget_locks (store s)).
             \<not> (wl_widget_id l = w \<and> wl_dashboard_id l = d \<and> wl_is_active l)"
    then have "release_widget_lock_core ?t d w ui = (Inr True, ?t)"
      by (intro release_none) (simp add: begin_session_def)
    then have "release_widget_lock e s d w ui =
           (True,
            s\<lparr>store := (working ?t)
                 \<lparr>collaboration_events :=
                    collaboration_events (working ?t) @ [released_event e d w ui]\<rparr>,
              shared_cache := (shared_cache s)
                 \<lparr>widget_lock_cache := delete_shared (widget_lock_cache (shared_cache s)) w,
                  widget_status_cache :=
                    delete_shared (widget_status_cache (shared_cache s)) w\<rparr>\<rparr>)"
      by (rule release_service_result) (simp add: begin_session_def)
    then show "fst (release_widget_lock e s d w ui) = True
              \<and> widget_locks (store (snd (release_widget_lock e s d w ui))) =
                  widget_locks (store s)
              \<and> user_sessions (store (snd (release_widget_lock e s d w ui))) =
                  user_sessions (store s)
              \<and> collaboration_events (store (snd (release_widget_lock e s d w ui))) =
                  collaboration_events (store s) @ [released_event e d w ui]
              \<and> shared_cache (snd (release_widget_lock e s d w ui)) =
                  (shared_cache s)
                    \<lparr>widget_lock_cache := delete_shared (widget_lock_cache (shared_cache s)) w,
                     widget_status_cache :=
                       delete_shared (widget_status_cache (shared_cache s)) w\<rparr>"
      by (simp add: begin_session_def)
  qed
next
  let ?t = "begin_session (store s)"
  have pk: "pk_unique (working ?t)" using assms by (simp add: begin_session_def)
  have dl: "distinct (map wl_widget_id (widget_locks (working ?t)))"
    using pk by (simp add: pk_unique_def)
  show "\<forall>l \<in> set (widget_locks (store s)).
             wl_widget_id l = w \<and> wl_dashboard_id l = d \<and> wl_is_active l \<longrightarrow>
             (wl_user_id l \<noteq> ui_user_id ui
                \<longrightarrow> release_widget_lock e s d w ui = (False, s))
           \<and> (wl_user_id l = ui_user_id ui
                \<longrightarrow> fst (release_widget_lock e s d w ui) = True
                    \<and> widget_locks (store (snd (release_widget_lock e s d w ui))) =
                        map (\<lambda>r. if wl_widget_id r = w then r\<lparr>wl_is_active := False\<rparr> else r)
                          (widget_locks (store s))
                    \<and> list_all2
                        (\<lambda>r r'. (us_session_id r \<noteq> wl_session_id l \<longrightarrow> r' = r)
                               \<and> (us_session_id r = wl_session_id l \<and> us_is_active r
                                    \<longrightarrow> r' = r\<lparr>us_locked_widgets :=
                                                  removeAll w (us_locked_widgets r)\<rparr>))
                        (user_sessions (store s))
                        (user_sessions (store (snd (release_widget_lock e s d w ui))))
                    \<and> collaboration_events (store (snd (release_widget_lock e s d w ui))) =
                        collaboration_events (store s) @ [released_event e d w ui]
                    \<and> shared_cache (snd (release_widget_lock e s d w ui)) =
                        (shared_cache s)
                          \<lparr>widget_lock_cache :=
                             delete_shared (widget_lock_cache (shared_cache s)) w,
                           widget_status_cache :=
                             delete_shared (widget_status_cache (shared_cache s)) w\<rparr>)"
  proof (intro ballI impI conjI)
    fix l
    assume l: "l \<in> set (widget_locks (store s))"
      and k: "wl_widget_id l = w \<and> wl_dashboard_id l = d \<and> wl_is_active l"
      and other: "wl_user_id l \<noteq> ui_user_id ui"
    have lt: "l \<in> set (widget_locks (working ?t))" using l by (simp add: begin_session_def)
    have "release_widget_lock_core ?t d w ui = (Inr False, ?t)"
      using dl lt k other by (intro release_not_owner[of ?t l]) simp_all
    then show "release_widget_lock e s d w ui = (False, s)"
      by (simp add: release_widget_lock_def close_session_def begin_session_def)
  next
    fix l
    assume l: "l \<in> set (widget_locks (store s))"
      and k: "wl_widget_id l = w \<and> wl_dashboard_id l = d \<and> wl_is_active l"
      and own: "wl_user_id l = ui_user_id ui"
    have lt: "l \<in> set (widget_locks (working ?t))" using l by (simp add: begin_session_def)
    obtain t' where core: "release_widget_lock_core ?t d w ui = (Inr True, t')"
      and cm: "committed t' = working t'"
      and locks: "widget_locks (working t') =
               map (\<lambda>r. if wl_widget_id r = w then r\<lparr>wl_is_active := False\<rparr> else r)
                 (widget_locks (working ?t))"
      and sess: "user_sessions (working t') =
               map (\<lambda>s. if us_session_id s = wl_session_id l \<and> us_is_active s
                         then s\<lparr>us_locked_widgets := removeAll w (us_locked_widgets s)\<rparr> else s)
                 (user_sessions (working ?t))"
      and evs: "collaboration_events (working t') = collaboration_events (working ?t)"
      using release_owner[OF pk lt _ _ _ own, of w d] k by blast
    have res: "release_widget_lock e s d w ui =
           (True,
            s\<lparr>store := (working t')
                 \<lparr>collaboration_events :=
                    collaboration_events (working t') @ [released_event e d w ui]\<rparr>,
              shared_cache := (shared_cache s)
                 \<lparr>widget_lock_cache := delete_shared (widget_lock_cache (shared_cache s)) w,
                  widget_status_cache :=
                    delete_shared (widget_status_cache (shared_cache s)) w\<rparr>\<rparr>)"
      using core cm by (rule release_service_result)
    show "fst (release_widget_lock e s d w ui) = True" by (simp add: res)
    show "widget_locks (store (snd (release_widget_lock e s d w ui))) =
            map (\<lambda>r. if wl_widget_id r = w then r\<lparr>wl_is_active := False\<rparr> else r)
              (widget_locks (store s))"
      by (simp add: res locks begin_session_def)
    show "list_all2
            (\<lambda>r r'. (us_session_id r \<noteq> wl_session_id l \<longrightarrow> r' = r)
                   \<and> (us_session_id r = wl_session_id l \<and> us_is_active r
                        \<longrightarrow> r' = r\<lparr>us_locked_widgets := removeAll w (us_locked_widgets r)\<rparr>))
            (user_sessions (store s))
            (user_sessions (store (snd (release_widget_lock e s d w ui))))"
      by (simp add: res sess begin_session_def list_all2_map2 list_all2_same)
    show "collaboration_events (store (snd (release_widget_lock e s d w ui))) =
            collaboration_events (store s) @ [released_event e d w ui]"
      by (simp add: res evs begin_session_def)
    show "shared_cache (snd (release_widget_lock e s d w ui)) =
            (shared_cache s)
              \<lparr>widget_lock_cache := delete_shared (widget_lock_cache (shared_cache s)) w,
               widget_status_cache :=
                 delete_shared (widget_status_cache (shared_cache s)) w\<rparr>"
      by (simp add: res)
  qed
qed

lemma alice_holds_store:
  "store (alice_holds lease) =
     \<lparr>widget_locks = [alice_lock lease], user_sessions = [alice_session [1]],
      collaboration_events = []\<rparr>"
  by (simp add: alice_holds_def acquire_widget_lock_def acquire_from_store_def
      acquire_and_publish_def acquire_widget_lock_core_def acquire_body_def acquire_upsert_def
      get_or_create_user_session_def get_active_widget_lock_def get_shared_def
      initial_system_def empty_db_def empty_cache_def begin_session_def commit_def
      close_session_def upd_locks_def upd_sessions_def upd_events_def put_session_def
      cache_lock_def log_collaboration_event_def at_seconds_def alice_def get_user_name_def
      alice_lock_def alice_session_def timedelta_seconds_def Let_def)

theorem release_service_by_case_witness:
  "pk_unique (store (alice_holds 60))
   \<and> fst (release_widget_lock (at_seconds 10) (alice_holds 60) 5 2 alice) = True
   \<and> widget_locks (store (snd (release_widget_lock (at_seconds 10) (alice_holds 60) 5 2 alice)))
       = [alice_lock 60]
   \<and> user_sessions
        (store (snd (release_widget_lock (at_seconds 10) (alice_holds 60) 5 2 alice)))
       = [alice_session [1]]
   \<and> release_widget_lock (at_seconds 10) (alice_holds 60) 5 1 bob = (False, alice_holds 60)
   \<and> fst (release_widget_lock (at_seconds 10) (alice_holds 60) 5 1 alice) = True
   \<and> map wl_is_active
        (widget_locks
           (store (snd (release_widget_lock (at_seconds 10) (alice_holds 60) 5 1 alice))))
       = [False]
   \<and> map us_locked_widgets
        (user_sessions
           (store (snd (release_widget_lock (at_seconds 10) (alice_holds 60) 5 1 alice))))
       = [[]]"
proof -
  let ?s = "alice_holds 60"
  let ?e = "at_seconds 10"
  have pk: "pk_unique (store ?s)"
    by (simp add: alice_holds_store pk_unique_def)
  have none: "fst (release_widget_lock ?e ?s 5 2 alice) = True
      \<and> widget_locks (store (snd (release_widget_lock ?e ?s 5 2 alice))) = [alice_lock 60]
      \<and> user_sessions (store (snd (release_widget_lock ?e ?s 5 2 alice)))
          = [alice_session [1]]"
    using release_service_by_case[OF pk, where w = 2 and d = 5 and ui = alice and e = ?e]
    by (simp add: alice_holds_store alice_lock_def)
  have other: "release_widget_lock ?e ?s 5 1 bob = (False, ?s)"
    using release_service_by_case[OF pk, where w = 1 and d = 5 and ui = bob and e = ?e]
    by (simp add: alice_holds_store alice_lock_def bob_def)
  have own: "fst (release_widget_lock ?e ?s 5 1 alice) = True
      \<and> map wl_is_active (widget_locks (store (snd (release_widget_lock ?e ?s 5 1 alice))))
          = [False]
      \<and> map us_locked_widgets
           (user_sessions (store (snd (release_widget_lock ?e ?s 5 1 alice)))) = [[]]"
    using release_service_by_case[OF pk, where w = 1 and d = 5 and ui = alice and e = ?e]
    by (auto simp: alice_holds_store alice_lock_def alice_def alice_session_def
        list_all2_Cons1)
  show ?thesis using pk none other own by simp
qed

text \<open>
  Claim C4 as stated says that a release with no active lock changes nothing, and that the
  owner's release removes the widget from the owning session. Alice holds widget 1 of
  dashboard 5. Her release of widget 2, which nobody holds, returns True and commits a
  \<open>lock_released\<close> audit event. And after she has left edit mode at second 5, which
  marks her session inactive and keeps her lock, her release of widget 1 at second 10
  returns True and deactivates the lock row, while her session still lists the widget.
\<close>

theorem release_without_lock_logs_event:
  "collaboration_events (store (alice_holds 60)) = []
   \<and> fst (release_widget_lock (at_seconds 10) (alice_holds 60) 5 2 alice) = True
   \<and> map ev_event_type
        (collaboration_events
           (store (snd (release_widget_lock (at_seconds 10) (alice_holds 60) 5 2 alice))))
       = [''lock_released'']
   \<and> map wl_is_active (widget_locks (store alice_stopped)) = [True]
   \<and> map us_is_active (user_sessions (store alice_stopped)) = [False]
   \<and> fst (release_widget_lock (at_seconds 10) alice_stopped 5 1 alice) = True
   \<and> map wl_is_active
        (widget_locks (store (snd (release_widget_lock (at_seconds 10) alice_stopped 5 1 alice))))
       = [False]
   \<and> map us_locked_widgets
        (user_sessions
           (store (snd (release_widget_lock (at_seconds 10) alice_stopped 5 1 alice))))
       = [[1]]"
  by code_simp

section \<open>RefreshLock\<close>

lemma active_lock_none:
  "\<forall>l \<in> set (widget_locks (working t)). \<not> (wl_widget_id l = w \<and> wl_is_active l)
   \<Longrightarrow> get_active_widget_lock t w = Inr None"
  by (simp add: get_active_widget_lock_def filter_key_none)

lemma active_lock_some:
  assumes "distinct (map wl_widget_id (widget_locks (working t)))"
    and "l \<in> set (widget_locks (working t))" "wl_widget_id l = w" "wl_is_active l"
  shows "get_active_widget_lock t w = Inr (Some l)"
proof -
  have "filter (\<lambda>l. wl_widget_id l = w \<and> wl_is_active l) (widget_locks (working t)) = [l]"
    using assms(1,2) by (rule filter_key_single) (simp_all add: assms)
  then show ?thesis by (simp add: get_active_widget_lock_def)
qed

lemma refresh_accepted:
  assumes "get_active_widget_lock (begin_session (store s)) w = Inr (Some l)"
    and "wl_widget_id l = w" "wl_user_id l = ui_user_id ui" "now e \<le> wl_expires_at l"
  shows "fst (refresh_widget_lock e s d w ui) =
           \<lparr>hb_success = True, hb_widget_id = w,
            hb_expires_at = now e + timedelta_seconds 120,
            hb_message = ''Widget lock heartbeat refreshed''\<rparr>"
    and "widget_locks (store (snd (refresh_widget_lock e s d w ui))) =
           map (\<lambda>r. if wl_widget_id r = w
                     then r\<lparr>wl_expires_at := now e + timedelta_seconds 120,
                            wl_last_heartbeat := now e\<rparr>
                     else r)
             (widget_locks (store s))"
  using assms
  by (simp_all add: refresh_widget_lock_def refresh_widget_lock_core_def is_expired_def
      lock_expiration_threshold_def touch_session_def cache_lock_def commit_def
      close_session_def begin_session_def upd_locks_def upd_sessions_def Let_def
      split: option.split)

text \<open>
  Claim C5, as amended. \<^verbatim>\<open>WidgetLockingService.refresh_widget_lock\<close>, on a store whose
  primary keys are unique. With no active lock row for the widget, with an active row of
  another user, or with an active row of the requester that has expired
  (\<open>now > expires_at\<close>), it returns \<open>success = False\<close> with the message of that case and
  leaves the store and the cache as they were. With an active, unexpired row of the
  requester it returns \<open>success = True\<close> and rewrites exactly that row: \<open>expires_at\<close>
  becomes \<open>now\<close> plus 120 seconds (the service's renewal window) and \<open>last_heartbeat\<close>
  becomes \<open>now\<close>. The new expiry is counted from \<open>now\<close>, not from the old expiry.
\<close>

theorem refresh_widget_lock_by_case:
  assumes "pk_unique (store s)"
  shows "((\<forall>l \<in> set (widget_locks (store s)). \<not> (wl_widget_id l = w \<and> wl_is_active l))
          \<longrightarrow> refresh_widget_lock e s d w ui =
                (\<lparr>hb_success = False, hb_widget_id = w, hb_expires_at = now e,
                  hb_message = ''Widget lock not found or already released''\<rparr>, s))
       \<and> (\<forall>l \<in> set (widget_locks (store s)).
             wl_widget_id l = w \<and> wl_is_active l \<longrightarrow>
             (wl_user_id l \<noteq> ui_user_id ui
                \<longrightarrow> refresh_widget_lock e s d w ui =
                      (\<lparr>hb_success = False, hb_widget_id = w,
                        hb_expires_at = wl_expires_at l, hb_message = msg_not_owned\<rparr>, s))
           \<and> (wl_user_id l = ui_user_id ui \<and> now e > wl_expires_at l
                \<longrightarrow> refresh_widget_lock e s d w ui =
                      (\<lparr>hb_success = False, hb_widget_id = w,
                        hb_expires_at = wl_expires_at l,
                        hb_message = ''Widget lock has expired''\<rparr>, s))
           \<and> (wl_user_id l = ui_user_id ui \<and> now e \<le> wl_expires_at l
                \<longrightarrow> fst (refresh_widget_lock e s d w ui) =
                      \<lparr>hb_success = True, hb_widget_id = w,
                       hb_expires_at = now e + timedelta_seconds 120,
                       hb_message = ''Widget lock heartbeat refreshed''\<rparr>
                    \<and> widget_locks (store (snd (refresh_widget_lock e s d w ui))) =
                        map (\<lambda>r. if wl_widget_id r = w
                                  then r\<lparr>wl_expires_at := now e + timedelta_seconds 120,
                                         wl_last_heartbeat := now e\<rparr>
                                  else r)
                          (widget_locks (store s))))"
proof (intro conjI impI ballI)
  assume "\<forall>l \<in> set (widget_locks (store s)). \<not> (wl_widget_id l = w \<and> wl_is_active l)"
  then have "get_active_widget_lock (begin_session (store s)) w = Inr None"
    by (intro active_lock_none) (simp add: begin_session_def)
  then show "refresh_widget_lock e s d w ui =
                (\<lparr>hb_success = False, hb_widget_id = w, hb_expires_at = now e,
                  hb_message = ''Widget lock not found or already released''\<rparr>, s)"
    by (simp add: refresh_widget_lock_def)
next
  fix l
  assume l: "l \<in> set (widget_locks (store s))" "wl_widget_id l = w \<and> wl_is_active l"
  have dl: "distinct (map wl_widget_id (widget_locks (working (begin_session (store s)))))"
    using assms by (simp add: pk_unique_def begin_session_def)
  have sel: "get_active_widget_lock (begin_session (store s)) w = Inr (Some l)"
    using dl by (rule active_lock_some) (simp_all add: l begin_session_def)
  {
    assume "wl_user_id l \<noteq> ui_user_id ui"
    then show "refresh_widget_lock e s d w ui =
                      (\<lparr>hb_success = False, hb_widget_id = w,
                        hb_expires_at = wl_expires_at l, hb_message = msg_not_owned\<rparr>, s)"
      by (simp add: refresh_widget_lock_def sel)
  next
    assume "wl_user_id l = ui_user_id ui \<and> now e > wl_expires_at l"
    then show "refresh_widget_lock e s d w ui =
                      (\<lparr>hb_success = False, hb_widget_id = w,
                        hb_expires_at = wl_expires_at l,
                        hb_message = ''Widget lock has expired''\<rparr>, s)"
      by (simp add: refresh_widget_lock_def sel is_expired_def)
  next
    assume a: "wl_user_id l = ui_user_id ui \<and> now e \<le> wl_expires_at l"
    show "fst (refresh_widget_lock e s d w ui) =
                      \<lparr>hb_success = True, hb_widget_id = w,
                       hb_expires_at = now e + timedelta_seconds 120,
                       hb_message = ''Widget lock heartbeat refreshed''\<rparr>"
      using sel l(2) a by (intro refresh_accepted(1)[of s w l]) simp_all
    show "widget_locks (store (snd (refresh_widget_lock e s d w ui))) =
                        map (\<lambda>r. if wl_widget_id r = w
                                  then r\<lparr>wl_expires_at := now e + timedelta_seconds 120,
                                         wl_last_heartbeat := now e\<rparr>
                                  else r)
                          (widget_locks (store s))"
      using sel l(2) a by (intro refresh_accepted(2)[of s w l]) simp_all
  }
qed

theorem refresh_widget_lock_by_case_witness:
  "pk_unique (store (alice_holds 60))
   \<and> refresh_widget_lock (at_seconds 10) (alice_holds 60) 5 2 alice =
       (\<lparr>hb_success = False, hb_widget_id = 2, hb_expires_at = now (at_seconds 10),
         hb_message = ''Widget lock not found or already released''\<rparr>, alice_holds 60)
   \<and> refresh_widget_lock (at_seconds 10) (alice_holds 60) 5 1 bob =
       (\<lparr>hb_success = False, hb_widget_id = 1, hb_expires_at = timedelta_seconds 60,
         hb_message = msg_not_owned\<rparr>, alice_holds 60)
   \<and> refresh_widget_lock (at_seconds 61) (alice_holds 60) 5 1 alice =
       (\<lparr>hb_success = False, hb_widget_id = 1, hb_expires_at = timedelta_seconds 60,
         hb_message = ''Widget lock has expired''\<rparr>, alice_holds 60)
   \<and> fst (refresh_widget_lock (at_seconds 10) (alice_holds 60) 5 1 alice) =
       \<lparr>hb_success = True, hb_widget_id = 1, hb_expires_at = timedelta_seconds 130,
        hb_message = ''Widget lock heartbeat refreshed''\<rparr>
   \<and> map wl_expires_at
        (widget_locks (store (snd (refresh_widget_lock (at_seconds 10) (alice_holds 60) 5 1
                                     alice)))) = [timedelta_seconds 130]"
proof -
  let ?s = "alice_holds 60"
  have pk: "pk_unique (store ?s)"
    by (simp add: alice_holds_store pk_unique_def)
  have a: "refresh_widget_lock (at_seconds 10) ?s 5 2 alice =
       (\<lparr>hb_success = False, hb_widget_id = 2, hb_expires_at = now (at_seconds 10),
         hb_message = ''Widget lock not found or already released''\<rparr>, ?s)"
    using refresh_widget_lock_by_case[OF pk, of 2 "at_seconds 10" 5 alice]
    by (simp add: alice_holds_store alice_lock_def)
  have b: "refresh_widget_lock (at_seconds 10) ?s 5 1 bob =
       (\<lparr>hb_success = False, hb_widget_id = 1, hb_expires_at = timedelta_seconds 60,
         hb_message = msg_not_owned\<rparr>, ?s)"
    using refresh_widget_lock_by_case[OF pk, of 1 "at_seconds 10" 5 bob]
    by (simp add: alice_holds_store alice_lock_def bob_def)
  have c: "refresh_widget_lock (at_seconds 61) ?s 5 1 alice =
       (\<lparr>hb_success = False, hb_widget_id = 1, hb_expires_at = timedelta_seconds 60,
         hb_message = ''Widget lock has expired''\<rparr>, ?s)"
    using refresh_widget_lock_by_case[OF pk, of 1 "at_seconds 61" 5 alice]
    by (simp add: alice_holds_store alice_lock_def alice_def at_seconds_def
        timedelta_seconds_def)
  have d: "fst (refresh_widget_lock (at_seconds 10) ?s 5 1 alice) =
       \<lparr>hb_success = True, hb_widget_id = 1, hb_expires_at = timedelta_seconds 130,
        hb_message = ''Widget lock heartbeat refreshed''\<rparr>
     \<and> map wl_expires_at
        (widget_locks (store (snd (refresh_widget_lock (at_seconds 10) ?s 5 1 alice))))
         = [timedelta_seconds 130]"
    using refresh_widget_lock_by_case[OF pk, of 1 "at_seconds 10" 5 alice]
    by (simp add: alice_holds_store alice_lock_def alice_def at_seconds_def
        timedelta_seconds_def)
  show ?thesis using pk a b c d by simp
qed

text \<open>
  Claim C5 as stated has the accepted heartbeat extend the expiry. Alice holds widget 1
  with a lease of 300 seconds taken at second 0; her heartbeat at second 10 is accepted
  and moves \<open>expires_at\<close> from second 300 back to second 130.
\<close>

theorem refresh_shortens_long_lease:
  "hb_success (fst (refresh_widget_lock (at_seconds 10) (alice_holds 300) 5 1 alice))
   \<and> map wl_expires_at (widget_locks (store (alice_holds 300))) = [300000000]
   \<and> map wl_expires_at
        (widget_locks
           (store (snd (refresh_widget_lock (at_seconds 10) (alice_holds 300) 5 1 alice))))
       = [130000000]"
  by code_simp

section \<open>GetLockStatus\<close>

lemma time_remaining_nonneg: "0 \<le> time_remaining n l"
  by (simp add: time_remaining_def)




lemma get_shared_SomeD: "get_shared n c k = Some v \<Longrightarrow> \<exists>x. c k = Some (v, x)"
  by (auto simp: get_shared_def split: option.splits if_splits)

lemma status_try_result:
  assumes "status_try e faults s w u = Inr r"
  shows "(\<exists>x. widget_status_cache (shared_cache s) w = Some (fst r, x) \<and> snd r = s)
         \<or> (0 \<le> st_time_remaining (fst r)
             \<and> (snd r = s \<or> snd r = cache_status (now e) w (fst r) s))"
proof (cases "if CacheGetFails \<in> faults then None
              else get_shared (now e) (widget_status_cache (shared_cache s)) w")
  case (Some v)
  then have hit: "get_shared (now e) (widget_status_cache (shared_cache s)) w = Some v"
    by (simp split: if_splits)
  from Some have "r = (v, s)"
    using assms by (simp add: status_try_def split: if_splits)
  moreover obtain x where "widget_status_cache (shared_cache s) w = Some (v, x)"
    using hit get_shared_SomeD by fastforce
  ultimately show ?thesis by simp
next
  case None
  note miss = None
  show ?thesis
  proof (cases "get_active_widget_lock (begin_session (store s)) w")
    case (Inl err)
    with miss assms show ?thesis by (simp add: status_try_def split: if_splits)
  next
    case (Inr found)
    show ?thesis
    proof (cases found)
      case None
      with miss Inr assms
      have "fst r = unlocked_status w
            \<and> (snd r = s \<or> snd r = cache_status (now e) w (unlocked_status w) s)"
        by (auto simp: status_try_def split: if_splits)
      then show ?thesis by (auto simp: unlocked_status_def)
    next
      case (Some l)
      define v where "v = (if now e > wl_expires_at l then unlocked_status w
                           else locked_status e w u l)"
      from Some miss Inr assms
      have "fst r = v \<and> (snd r = s \<or> snd r = cache_status (now e) w v s)"
        by (auto simp: status_try_def Let_def v_def split: if_splits)
      moreover have "0 \<le> st_time_remaining v"
        by (simp add: v_def unlocked_status_def locked_status_def time_remaining_nonneg)
      ultimately show ?thesis by auto
    qed
  qed
qed


lemma cache_status_sane:
  assumes "status_cache_sane s" "0 \<le> st_time_remaining v"
  shows "status_cache_sane (cache_status n w v s)"
  using assms
  by (auto simp: status_cache_sane_def cache_status_def set_shared_def split: if_splits)

lemma status_keeps_cache_sane:
  assumes "status_cache_sane s"
  shows "status_cache_sane (snd (get_widget_lock_status e faults s w u))"
proof (cases "status_try e faults s w u")
  case (Inl err)
  then show ?thesis using assms by (simp add: get_widget_lock_status_def)
next
  case (Inr r)
  from status_try_result[OF Inr] have "status_cache_sane (snd r)"
  proof
    assume "\<exists>x. widget_status_cache (shared_cache s) w = Some (fst r, x) \<and> snd r = s"
    then show ?thesis using assms by auto
  next
    assume "0 \<le> st_time_remaining (fst r)
            \<and> (snd r = s \<or> snd r = cache_status (now e) w (fst r) s)"
    then show ?thesis using assms cache_status_sane[OF assms, of "fst r" "now e" w] by auto
  qed
  then show ?thesis using Inr by (simp add: get_widget_lock_status_def)
qed

lemma initial_status_cache_sane: "status_cache_sane initial_system"
  by (simp add: status_cache_sane_def initial_system_def empty_cache_def)

lemma acquire_keeps_status_cache:
  "widget_status_cache (shared_cache (snd (acquire_widget_lock e fault s d w ui dur))) =
     widget_status_cache (shared_cache s)"
  by (auto simp: acquire_widget_lock_def acquire_from_store_def acquire_and_publish_def
      cache_lock_def Let_def split: option.splits sum.splits prod.splits if_splits)

lemma refresh_keeps_status_cache:
  "widget_status_cache (shared_cache (snd (refresh_widget_lock e s d w ui))) =
     widget_status_cache (shared_cache s)"
  by (auto simp: refresh_widget_lock_def cache_lock_def Let_def
      split: option.splits sum.splits prod.splits if_splits)

lemma release_keeps_cache_sane:
  assumes "status_cache_sane s"
  shows "status_cache_sane (snd (release_widget_lock e s d w ui))"
  using assms
  by (auto simp: release_widget_lock_def status_cache_sane_def delete_shared_def Let_def
      split: sum.splits prod.splits if_splits)





lemma alice_holds_status_cache:
  "widget_status_cache (shared_cache (alice_holds lease)) = Map.empty"
  by (simp add: alice_holds_def acquire_widget_lock_def acquire_from_store_def
      acquire_and_publish_def acquire_widget_lock_core_def acquire_body_def acquire_upsert_def
      get_or_create_user_session_def get_active_widget_lock_def get_shared_def
      initial_system_def empty_db_def empty_cache_def begin_session_def commit_def
      close_session_def upd_locks_def upd_sessions_def upd_events_def put_session_def
      cache_lock_def log_collaboration_event_def at_seconds_def alice_def
      Let_def)



text \<open>
  Two further departures of \<^verbatim>\<open>get_widget_lock_status\<close> that the amended claim leaves
  out. Through the route the caller's id arrives as a str, so the owner of an unexpired
  lock is told \<open>can_acquire = False\<close>. And the status cache is keyed by the widget alone:
  the view computed for Bob at second 10 is served to Alice, passed as a UUID object, at
  second 11, with Bob's \<open>can_acquire = False\<close>, although she holds the lock.
\<close>

lemma status_route_denies_owner:
  "st_is_locked (fst (route_get_widget_lock_status (at_seconds 10) {} (alice_holds 60) 1 7))
   \<and> st_locked_by_user_id
        (fst (route_get_widget_lock_status (at_seconds 10) {} (alice_holds 60) 1 7)) = Some 7
   \<and> st_can_acquire
        (fst (route_get_widget_lock_status (at_seconds 10) {} (alice_holds 60) 1 7)) = False"
  by code_simp

lemma status_cache_serves_other_caller:
  "st_can_acquire
     (fst (get_widget_lock_status (at_seconds 11) {}
             (snd (get_widget_lock_status (at_seconds 10) {} (alice_holds 60) 1 (UUID_obj 8)))
             1 (UUID_obj 7))) = False
   \<and> st_can_acquire
       (fst (get_widget_lock_status (at_seconds 11) {} (alice_holds 60) 1 (UUID_obj 7)))"
  by code_simp

section \<open>AcquireLock\<close>

lemma scalar_one_SomeD: "scalar_one_or_none xs = Inr (Some x) \<Longrightarrow> xs = [x]"
  by (cases xs rule: scalar_one_or_none.cases) simp_all


lemma get_or_create_keeps_locks:
  "get_or_create_user_session e fault t d ui = (r, t1)
   \<Longrightarrow> widget_locks (working t1) = widget_locks (working t)"
  by (auto simp: get_or_create_user_session_def upd_sessions_def commit_def Let_def
      split: if_splits sum.splits option.splits)

lemma acquire_upsert_success:
  assumes "acquire_upsert e fault t d w ui dur old = (Inr l, t')"
    and "\<And>x. old = Some x \<Longrightarrow> x \<in> set (widget_locks (working t)) \<and> wl_widget_id x = w"
  shows "l \<in> set (widget_locks (committed t')) \<and> wl_widget_id l = w
         \<and> wl_locked_at l = now e \<and> wl_expires_at l = now e + timedelta_seconds dur
         \<and> wl_is_active l"
proof -
  obtain us t1 where g: "get_or_create_user_session e fault t d ui = (Inr us, t1)"
    using assms(1)
    by (cases "get_or_create_user_session e fault t d ui")
       (auto simp: acquire_upsert_def split: sum.splits)
  have locks1: "widget_locks (working t1) = widget_locks (working t)"
    using g by (rule get_or_create_keeps_locks)
  define new_lock where "new_lock =
    \<lparr>wl_widget_id = w, wl_dashboard_id = d, wl_session_id = us_session_id us,
     wl_user_id = ui_user_id ui, wl_user_name = get_user_name ui, wl_locked_at = now e,
     wl_expires_at = now e + timedelta_seconds dur, wl_last_heartbeat = now e,
     wl_is_active = True\<rparr>"
  define t2 where "t2 = (case old of Some x \<Rightarrow> upd_locks (put_lock new_lock) t1
                          | None \<Rightarrow> upd_locks (\<lambda>ls. ls @ [new_lock]) t1)"
  define t3 where "t3 = (if w \<notin> set (us_locked_widgets us)
                         then upd_sessions
                                (put_session
                                   (us\<lparr>us_locked_widgets := us_locked_widgets us @ [w],
                                       us_last_activity := now e\<rparr>)) t2
                         else t2)"
  have "acquire_upsert e fault t d w ui dur old =
          (if fault = Some LockCommitFails then (Inl StoreError, t3)
           else if fault = Some LockRefreshFails then (Inl StoreError, commit t3)
           else (Inr new_lock, commit t3))"
    unfolding new_lock_def t2_def t3_def by (simp add: acquire_upsert_def g Let_def)
  with assms(1) have res: "l = new_lock" "t' = commit t3"
    by (simp_all split: if_splits)
  have "new_lock \<in> set (widget_locks (working t2))"
  proof (cases old)
    case None
    then show ?thesis by (simp add: t2_def upd_locks_def)
  next
    case (Some x)
    then have "x \<in> set (widget_locks (working t1))" "wl_widget_id x = w"
      using assms(2) locks1 by simp_all
    then have "new_lock \<in> set (put_lock new_lock (widget_locks (working t1)))"
      by (force simp: put_lock_def new_lock_def image_iff)
    with Some show ?thesis by (simp add: t2_def upd_locks_def)
  qed
  moreover have "widget_locks (working t3) = widget_locks (working t2)"
    by (simp add: t3_def upd_sessions_def)
  ultimately have "new_lock \<in> set (widget_locks (committed (commit t3)))"
    by (simp add: commit_def)
  with res show ?thesis by (simp add: new_lock_def)
qed

lemma acquire_core_success:
  assumes "acquire_widget_lock_core e fault t d w ui dur = (Inr l, t')"
  shows "l \<in> set (widget_locks (committed t')) \<and> wl_widget_id l = w
         \<and> wl_locked_at l = now e \<and> wl_expires_at l = now e + timedelta_seconds dur
         \<and> wl_is_active l"
proof -
  have body: "acquire_body e fault t d w ui dur = (Inr l, t')"
    using assms
    by (cases "acquire_body e fault t d w ui dur")
       (auto simp: acquire_widget_lock_core_def split: sum.splits)
  show ?thesis
  proof (cases "scalar_one_or_none
                  (filter (\<lambda>l. wl_widget_id l = w) (widget_locks (working t)))")
    case (Inl err)
    with body show ?thesis by (simp add: acquire_body_def split: if_splits)
  next
    case (Inr found)
    show ?thesis
    proof (cases found)
      case None
      with Inr body have "acquire_upsert e fault t d w ui dur None = (Inr l, t')"
        by (simp add: acquire_body_def split: if_splits)
      then show ?thesis by (rule acquire_upsert_success) simp
    next
      case (Some x)
      with Inr have "filter (\<lambda>l. wl_widget_id l = w) (widget_locks (working t)) = [x]"
        by (simp add: scalar_one_SomeD)
      then have "x \<in> set (filter (\<lambda>l. wl_widget_id l = w) (widget_locks (working t)))"
        by simp
      then have x: "x \<in> set (widget_locks (working t)) \<and> wl_widget_id x = w" by simp
      from Some Inr body have u: "acquire_upsert e fault t d w ui dur (Some x) = (Inr l, t')"
        by (simp add: acquire_body_def split: if_splits)
      show ?thesis by (rule acquire_upsert_success[OF u]) (simp add: x)
    qed
  qed
qed

lemma acquire_and_publish_success:
  assumes "acquire_and_publish e fault s d w ui dur = (r, s')" "la_success r"
  shows "\<exists>l \<in> set (widget_locks (store s')). wl_widget_id l = w \<and> wl_is_active l
           \<and> wl_locked_at l = now e \<and> wl_expires_at l = now e + timedelta_seconds dur
           \<and> la_expires_at r = wl_expires_at l"
proof (cases "acquire_widget_lock_core e fault (begin_session (store s)) d w ui dur")
  case (Pair res t)
  show ?thesis
  proof (cases res)
    case (Inl err)
    with Pair assms show ?thesis
      by (auto simp: acquire_and_publish_def acquire_failed_def)
  next
    case (Inr l)
    with Pair have "l \<in> set (widget_locks (committed t)) \<and> wl_widget_id l = w
         \<and> wl_locked_at l = now e \<and> wl_expires_at l = now e + timedelta_seconds dur
         \<and> wl_is_active l"
      by (intro acquire_core_success[of e fault "begin_session (store s)" d w ui dur]) simp
    moreover have "store s' = committed t \<and> la_expires_at r = wl_expires_at l"
      using assms Pair Inr
      by (auto simp: acquire_and_publish_def acquire_failed_def Let_def cache_lock_def
          close_session_def begin_session_def log_collaboration_event_def upd_events_def
          split: if_splits)
    ultimately show ?thesis by auto
  qed
qed

lemma acquire_success:
  assumes "acquire_widget_lock e fault s d w ui dur = (r, s')" "la_success r"
  shows "\<exists>l \<in> set (widget_locks (store s')). wl_widget_id l = w \<and> wl_is_active l
           \<and> wl_locked_at l = now e \<and> wl_expires_at l = now e + timedelta_seconds dur
           \<and> la_expires_at r = wl_expires_at l"
proof -
  have "acquire_from_store e fault s d w ui dur = (r, s')"
    using assms
    by (auto simp: acquire_widget_lock_def acquire_locked_by_def
        split: option.splits if_splits)
  then have "acquire_and_publish e fault s d w ui dur = (r, s')"
    using assms(2)
    by (auto simp: acquire_from_store_def acquire_locked_by_def acquire_failed_def
        split: option.splits if_splits sum.splits)
  then show ?thesis using assms(2) by (rule acquire_and_publish_success)
qed

text \<open>
  Claim C7, as amended. Nothing clamps the lease. \<^verbatim>\<open>acquire_widget_lock\<close> applies the
  \<open>lock_duration\<close> it is given: after every successful call the widget's lock row has
  \<open>expires_at - locked_at\<close> equal to that many seconds, whatever the value. The request
  schema rejects a \<open>lock_duration\<close> outside 30 to 300: the route answers 422 and the
  state is untouched. So after every acquisition that succeeds through the route,
  \<open>expires_at - locked_at\<close> is the requested duration (60 seconds when the request
  names none) and lies between 30 and 300 seconds.
\<close>

theorem lease_is_validated_not_clamped:
  "(acquire_widget_lock e fault s d w ui dur = (r, s') \<and> la_success r \<longrightarrow>
      (\<exists>l \<in> set (widget_locks (store s')). wl_widget_id l = w \<and> wl_is_active l
          \<and> wl_expires_at l - wl_locked_at l = timedelta_seconds dur))
   \<and> (n < 30 \<or> 300 < n \<longrightarrow>
        route_acquire_widget_lock e fault s d w (Some n) ui =
          (Inl (HTTPException 422 ''ValidationError''), s))
   \<and> (route_acquire_widget_lock e fault s d w lock_duration ui = (Inr r, s') \<longrightarrow>
        (\<exists>l \<in> set (widget_locks (store s')). wl_widget_id l = w \<and> wl_is_active l
            \<and> wl_expires_at l - wl_locked_at l =
                timedelta_seconds (case lock_duration of None \<Rightarrow> 60 | Some m \<Rightarrow> m)
            \<and> timedelta_seconds 30 \<le> wl_expires_at l - wl_locked_at l
            \<and> wl_expires_at l - wl_locked_at l \<le> timedelta_seconds 300))"
proof (intro conjI impI)
  assume "acquire_widget_lock e fault s d w ui dur = (r, s') \<and> la_success r"
  then have "\<exists>l \<in> set (widget_locks (store s')). wl_widget_id l = w \<and> wl_is_active l
           \<and> wl_locked_at l = now e \<and> wl_expires_at l = now e + timedelta_seconds dur
           \<and> la_expires_at r = wl_expires_at l"
    by (intro acquire_success[of e fault s d w ui dur]) simp_all
  then show "\<exists>l \<in> set (widget_locks (store s')). wl_widget_id l = w \<and> wl_is_active l
          \<and> wl_expires_at l - wl_locked_at l = timedelta_seconds dur"
    by auto
next
  assume "n < 30 \<or> 300 < n"
  then show "route_acquire_widget_lock e fault s d w (Some n) ui =
          (Inl (HTTPException 422 ''ValidationError''), s)"
    by (auto simp: route_acquire_widget_lock_def validate_lock_duration_def)
next
  assume route: "route_acquire_widget_lock e fault s d w lock_duration ui = (Inr r, s')"
  define m where "m = (case lock_duration of None \<Rightarrow> 60 | Some m \<Rightarrow> m)"
  have v: "validate_lock_duration lock_duration = Inr m" and range: "30 \<le> m" "m \<le> 300"
    using route
    by (auto simp: route_acquire_widget_lock_def validate_lock_duration_def m_def
        split: option.splits if_splits)
  have "acquire_widget_lock e fault s d w ui m = (r, s') \<and> la_success r"
    using route v
    by (cases "acquire_widget_lock e fault s d w ui m")
       (auto simp: route_acquire_widget_lock_def split: if_splits)
  then have "\<exists>l \<in> set (widget_locks (store s')). wl_widget_id l = w \<and> wl_is_active l
           \<and> wl_locked_at l = now e \<and> wl_expires_at l = now e + timedelta_seconds m
           \<and> la_expires_at r = wl_expires_at l"
    by (intro acquire_success[of e fault s d w ui m]) simp_all
  then obtain l where l: "l \<in> set (widget_locks (store s'))" "wl_widget_id l = w"
    "wl_is_active l" "wl_expires_at l - wl_locked_at l = timedelta_seconds m"
    by auto
  moreover have "timedelta_seconds 30 \<le> timedelta_seconds m"
    "timedelta_seconds m \<le> timedelta_seconds 300"
    using range by (simp_all add: timedelta_seconds_def)
  ultimately show "\<exists>l \<in> set (widget_locks (store s')). wl_widget_id l = w \<and> wl_is_active l
            \<and> wl_expires_at l - wl_locked_at l =
                timedelta_seconds (case lock_duration of None \<Rightarrow> 60 | Some m \<Rightarrow> m)
            \<and> timedelta_seconds 30 \<le> wl_expires_at l - wl_locked_at l
            \<and> wl_expires_at l - wl_locked_at l \<le> timedelta_seconds 300"
    unfolding m_def[symmetric] by auto
qed

theorem lease_is_validated_not_clamped_witness:
  "la_success (fst (acquire_widget_lock (at_seconds 0) None initial_system 5 1 alice 45))
   \<and> (\<exists>l \<in> set (widget_locks
                  (store (snd (acquire_widget_lock (at_seconds 0) None initial_system 5 1
                                 alice 45)))).
         wl_widget_id l = 1 \<and> wl_is_active l
         \<and> wl_expires_at l - wl_locked_at l = timedelta_seconds 45)
   \<and> route_acquire_widget_lock (at_seconds 0) None initial_system 5 1 (Some 1000) alice =
        (Inl (HTTPException 422 ''ValidationError''), initial_system)
   \<and> (\<exists>l \<in> set (widget_locks
                  (store (snd (route_acquire_widget_lock (at_seconds 0) None initial_system
                                 5 1 (Some 45) alice)))).
         wl_widget_id l = 1 \<and> wl_is_active l
         \<and> wl_expires_at l - wl_locked_at l = timedelta_seconds 45
         \<and> timedelta_seconds 30 \<le> wl_expires_at l - wl_locked_at l
         \<and> wl_expires_at l - wl_locked_at l \<le> timedelta_seconds 300)"
proof -
  let ?a = "acquire_widget_lock (at_seconds 0) None initial_system 5 1 alice 45"
  let ?r = "route_acquire_widget_lock (at_seconds 0) None initial_system 5 1 (Some 45) alice"
  have ok: "la_success (fst ?a)" by code_simp
  have a: "?a = (fst ?a, snd ?a)" by simp
  have ra: "?r = (Inr (fst ?a), snd ?a)"
    using ok by (simp add: route_acquire_widget_lock_def validate_lock_duration_def
        case_prod_beta)
  then have r: "?r = (Inr (fst ?a), snd ?r)" by simp
  have one: "\<exists>l \<in> set (widget_locks (store (snd ?a))).
         wl_widget_id l = 1 \<and> wl_is_active l
         \<and> wl_expires_at l - wl_locked_at l = timedelta_seconds 45"
    using lease_is_validated_not_clamped[where e = "at_seconds 0" and fault = None
        and s = initial_system and d = 5 and w = 1 and ui = alice and dur = 45
        and r = "fst ?a" and s' = "snd ?a"] a ok by blast
  have two: "route_acquire_widget_lock (at_seconds 0) None initial_system 5 1 (Some 1000)
               alice = (Inl (HTTPException 422 ''ValidationError''), initial_system)"
    using lease_is_validated_not_clamped[where e = "at_seconds 0" and fault = None
        and s = initial_system and d = 5 and w = 1 and ui = alice and n = 1000]
    by simp
  have three: "\<exists>l \<in> set (widget_locks (store (snd ?r))).
         wl_widget_id l = 1 \<and> wl_is_active l
         \<and> wl_expires_at l - wl_locked_at l = timedelta_seconds 45
         \<and> timedelta_seconds 30 \<le> wl_expires_at l - wl_locked_at l
         \<and> wl_expires_at l - wl_locked_at l \<le> timedelta_seconds 300"
    using lease_is_validated_not_clamped[where e = "at_seconds 0" and fault = None
        and s = initial_system and d = 5 and w = 1 and ui = alice
        and lock_duration = "Some 45" and r = "fst ?a" and s' = "snd ?r"] r
    by simp
  show ?thesis using ok one two three by blast
qed

text \<open>
  Claim C7 as stated has every successful acquisition end with a lease of 30 to 300
  seconds whatever the caller supplied. \<^verbatim>\<open>acquire_widget_lock\<close> called with a
  \<open>lock_duration\<close> of 1000 succeeds and the lock row runs for 1000 seconds.
\<close>

theorem acquire_applies_unclamped_lease:
  "la_success (fst (acquire_widget_lock (at_seconds 0) None initial_system 5 1 alice 1000))
   \<and> map (\<lambda>l. wl_expires_at l - wl_locked_at l)
        (widget_locks
           (store (snd (acquire_widget_lock (at_seconds 0) None initial_system 5 1 alice
                          1000))))
       = [1000 * 1000000]"
  by code_simp

section \<open>GetLockStatus under an internal error\<close>

text \<open>
  Claim C10, as amended. Whenever something raises inside the \<^verbatim>\<open>try\<close> block of
  \<^verbatim>\<open>get_widget_lock_status\<close> (the initialisation, or the store query, reached when the
  status cache gives no live entry, failing or finding more than one active row), the call
  returns \<open>is_locked = False\<close>, \<open>time_remaining = 0\<close> and \<open>can_acquire = True\<close>, with
  no owner and no times, and changes nothing, whatever lock rows the store holds. An error
  of the cache backend does not raise into the \<^verbatim>\<open>try\<close> block: when neither the
  initialisation nor the store query fails, the call returns the view of a call without any
  error, taken with the widget's status entry removed if it is the cache read that failed.
\<close>

theorem status_fails_open_on_raise:
  "((InitFails \<in> faults
      \<or> ((CacheGetFails \<in> faults
           \<or> get_shared (now e) (widget_status_cache (shared_cache s)) w = None)
          \<and> (QueryFails \<in> faults
              \<or> get_active_widget_lock (begin_session (store s)) w = Inl err)))
     \<longrightarrow> get_widget_lock_status e faults s w cu =
           (\<lparr>st_widget_id = w, st_is_locked = False, st_locked_by = None,
             st_locked_by_user_id = None, st_locked_at = None, st_expires_at = None,
             st_time_remaining = 0, st_can_acquire = True\<rparr>, s))
   \<and> (InitFails \<notin> faults \<and> QueryFails \<notin> faults
     \<longrightarrow> fst (get_widget_lock_status e faults s w cu) =
           fst (get_widget_lock_status e {}
                  (if CacheGetFails \<in> faults
                   then s\<lparr>shared_cache := (shared_cache s)
                            \<lparr>widget_status_cache :=
                               delete_shared (widget_status_cache (shared_cache s)) w\<rparr>\<rparr>
                   else s)
                  w cu))"
proof (rule conjI)
  show "(InitFails \<in> faults
      \<or> ((CacheGetFails \<in> faults
           \<or> get_shared (now e) (widget_status_cache (shared_cache s)) w = None)
          \<and> (QueryFails \<in> faults
              \<or> get_active_widget_lock (begin_session (store s)) w = Inl err)))
     \<longrightarrow> get_widget_lock_status e faults s w cu =
           (\<lparr>st_widget_id = w, st_is_locked = False, st_locked_by = None,
             st_locked_by_user_id = None, st_locked_at = None, st_expires_at = None,
             st_time_remaining = 0, st_can_acquire = True\<rparr>, s)"
    by (auto simp: get_widget_lock_status_def status_try_def unlocked_status_def)
next
  let ?d = "s\<lparr>shared_cache := (shared_cache s)
                \<lparr>widget_status_cache :=
                   delete_shared (widget_status_cache (shared_cache s)) w\<rparr>\<rparr>"
  show "InitFails \<notin> faults \<and> QueryFails \<notin> faults
     \<longrightarrow> fst (get_widget_lock_status e faults s w cu) =
           fst (get_widget_lock_status e {} (if CacheGetFails \<in> faults then ?d else s) w cu)"
  proof (rule impI)
    assume ok: "InitFails \<notin> faults \<and> QueryFails \<notin> faults"
    show "fst (get_widget_lock_status e faults s w cu) =
           fst (get_widget_lock_status e {} (if CacheGetFails \<in> faults then ?d else s) w cu)"
    proof (cases "CacheGetFails \<in> faults")
      case True
      have miss: "get_shared n (delete_shared c w) w = None"
        for n and c :: "uuid \<rightharpoonup> widget_lock_status_response \<times> datetime"
        by (simp add: get_shared_def delete_shared_def)
      show ?thesis
        using True ok
        by (simp add: get_widget_lock_status_def status_try_def miss Let_def
            split: sum.split option.split)
    next
      case False
      with ok show ?thesis
        by (simp add: get_widget_lock_status_def status_try_def Let_def
            split: sum.split option.split)
    qed
  qed
qed

theorem status_fails_open_on_raise_witness:
  "get_shared (now (at_seconds 10)) (widget_status_cache (shared_cache (alice_holds 60))) 1
     = None
   \<and> map wl_user_id (widget_locks (store (alice_holds 60))) = [7]
   \<and> map wl_is_active (widget_locks (store (alice_holds 60))) = [True]
   \<and> get_widget_lock_status (at_seconds 10) {QueryFails} (alice_holds 60) 1 (Str_obj 8) =
           (\<lparr>st_widget_id = 1, st_is_locked = False, st_locked_by = None,
             st_locked_by_user_id = None, st_locked_at = None, st_expires_at = None,
             st_time_remaining = 0, st_can_acquire = True\<rparr>, alice_holds 60)
   \<and> get_widget_lock_status (at_seconds 10) {InitFails} (alice_holds 60) 1 (Str_obj 8) =
           (\<lparr>st_widget_id = 1, st_is_locked = False, st_locked_by = None,
             st_locked_by_user_id = None, st_locked_at = None, st_expires_at = None,
             st_time_remaining = 0, st_can_acquire = True\<rparr>, alice_holds 60)
   \<and> fst (get_widget_lock_status (at_seconds 10) {CacheSetFails} (alice_holds 60) 1
            (Str_obj 8)) =
       fst (get_widget_lock_status (at_seconds 10) {} (alice_holds 60) 1 (Str_obj 8))"
proof -
  have miss: "get_shared (now (at_seconds 10))
                (widget_status_cache (shared_cache (alice_holds 60))) 1 = None"
    by (simp add: alice_holds_status_cache get_shared_def)
  have rows: "map wl_user_id (widget_locks (store (alice_holds 60))) = [7]"
    "map wl_is_active (widget_locks (store (alice_holds 60))) = [True]"
    by (simp_all add: alice_holds_store alice_lock_def)
  have q: "get_widget_lock_status (at_seconds 10) {QueryFails} (alice_holds 60) 1 (Str_obj 8) =
           (\<lparr>st_widget_id = 1, st_is_locked = False, st_locked_by = None,
             st_locked_by_user_id = None, st_locked_at = None, st_expires_at = None,
             st_time_remaining = 0, st_can_acquire = True\<rparr>, alice_holds 60)"
    using miss
      status_fails_open_on_raise[where faults = "{QueryFails}" and e = "at_seconds 10"
        and s = "alice_holds 60" and w = 1 and cu = "Str_obj 8"]
    by simp
  have i: "get_widget_lock_status (at_seconds 10) {InitFails} (alice_holds 60) 1 (Str_obj 8) =
           (\<lparr>st_widget_id = 1, st_is_locked = False, st_locked_by = None,
             st_locked_by_user_id = None, st_locked_at = None, st_expires_at = None,
             st_time_remaining = 0, st_can_acquire = True\<rparr>, alice_holds 60)"
    using status_fails_open_on_raise[where faults = "{InitFails}" and e = "at_seconds 10"
        and s = "alice_holds 60" and w = 1 and cu = "Str_obj 8"]
    by simp
  have c: "fst (get_widget_lock_status (at_seconds 10) {CacheSetFails} (alice_holds 60) 1
                  (Str_obj 8)) =
           fst (get_widget_lock_status (at_seconds 10) {} (alice_holds 60) 1 (Str_obj 8))"
    using status_fails_open_on_raise[where faults = "{CacheSetFails}" and e = "at_seconds 10"
        and s = "alice_holds 60" and w = 1 and cu = "Str_obj 8"]
    by simp
  show ?thesis using miss rows q i c by simp
qed

text \<open>
  Claim C10 as stated covers every internal error, a failure of the cache among them. Alice
  holds widget 1 with a lease of 60 seconds taken at second 0. Bob polls at second 10 while
  the cache backend fails on the read and on the write: \<^verbatim>\<open>get_shared\<close> and
  \<^verbatim>\<open>set_shared\<close> catch the errors, and the call answers from the store with
  \<open>is_locked = True\<close>, 50 seconds remaining and \<open>can_acquire = False\<close>.
\<close>

theorem cache_failure_does_not_fail_open:
  "st_is_locked
     (fst (get_widget_lock_status (at_seconds 10) {CacheGetFails, CacheSetFails}
             (alice_holds 60) 1 (Str_obj 8)))
   \<and> st_time_remaining
       (fst (get_widget_lock_status (at_seconds 10) {CacheGetFails, CacheSetFails}
               (alice_holds 60) 1 (Str_obj 8))) = 50
   \<and> st_can_acquire
       (fst (get_widget_lock_status (at_seconds 10) {CacheGetFails, CacheSetFails}
               (alice_holds 60) 1 (Str_obj 8))) = False"
  by code_simp

section \<open>What the sweep and the release do to the tables\<close>

lemma release_stale_locks:
  "widget_locks (working (release_stale ss t)) =
     filter (\<lambda>l. wl_session_id l \<notin> us_session_id ` set ss) (widget_locks (working t))"
proof (induction ss arbitrary: t)
  case Nil
  then show ?case by simp
next
  case (Cons s rest)
  have "widget_locks (working (release_stale (s # rest) t)) =
          filter (\<lambda>l. wl_session_id l \<notin> us_session_id ` set rest)
            (filter (\<lambda>l. wl_session_id l \<noteq> us_session_id s) (widget_locks (working t)))"
    by (simp add: Cons.IH upd_sessions_def upd_locks_def)
  also have "\<dots> = filter (\<lambda>l. wl_session_id l \<notin> us_session_id ` set (s # rest))
                     (widget_locks (working t))"
    by (auto intro: filter_cong)
  finally show ?case .
qed

lemma release_stale_sessions:
  assumes "distinct (map us_session_id (user_sessions (working t)))"
    and "set ss \<subseteq> set (user_sessions (working t))"
    and "distinct (map us_session_id ss)"
  shows "user_sessions (working (release_stale ss t)) =
           map (\<lambda>r. if us_session_id r \<in> us_session_id ` set ss
                     then r\<lparr>us_is_active := False\<rparr> else r)
             (user_sessions (working t))"
  using assms
proof (induction ss arbitrary: t)
  case Nil
  then show ?case by simp
next
  case (Cons s rest)
  let ?tab = "user_sessions (working t)"
  let ?off = "\<lambda>r. r\<lparr>us_is_active := False\<rparr>"
  let ?t1 = "upd_sessions (put_session (?off s))
               (upd_locks (filter (\<lambda>l. wl_session_id l \<noteq> us_session_id s)) t)"
  have sin: "s \<in> set ?tab" using Cons.prems(2) by simp
  have "put_session (?off s) ?tab =
          map (\<lambda>r. if us_session_id r = us_session_id s \<and> True then ?off r else r) ?tab"
    unfolding put_session_def
    by (rule put_as_map[OF Cons.prems(1) sin, where f = ?off]) simp_all
  then have tab1: "user_sessions (working ?t1) =
          map (\<lambda>r. if us_session_id r = us_session_id s then ?off r else r) ?tab"
    by (simp add: upd_sessions_def upd_locks_def)
  have ids1: "map us_session_id (user_sessions (working ?t1)) = map us_session_id ?tab"
    unfolding tab1 by (induction ?tab) auto
  have d1: "distinct (map us_session_id (user_sessions (working ?t1)))"
    using Cons.prems(1) ids1 by simp
  have fresh: "us_session_id s \<notin> us_session_id ` set rest"
    using Cons.prems(3) by simp
  have sub1: "set rest \<subseteq> set (user_sessions (working ?t1))"
  proof
    fix r assume r: "r \<in> set rest"
    then have "us_session_id r \<noteq> us_session_id s" using fresh by (metis imageI)
    moreover have "r \<in> set ?tab" using r Cons.prems(2) by auto
    ultimately show "r \<in> set (user_sessions (working ?t1))"
      unfolding tab1 by (auto simp: image_iff)
  qed
  have d2: "distinct (map us_session_id rest)" using Cons.prems(3) by simp
  have "user_sessions (working (release_stale (s # rest) t)) =
          map (\<lambda>r. if us_session_id r \<in> us_session_id ` set rest then ?off r else r)
            (user_sessions (working ?t1))"
    using Cons.IH[OF d1 sub1 d2] by simp
  also have "\<dots> = map (\<lambda>r. if us_session_id r \<in> us_session_id ` set (s # rest)
                              then ?off r else r) ?tab"
    unfolding tab1 by (auto simp: fresh)
  finally show ?case .
qed

text \<open>
  Inside its own transaction the sweep does what the specification asks of the reaper: it
  returns the number of lock rows with \<open>expires_at \<le> now\<close> and the number of active
  sessions idle for the timeout or longer, it keeps exactly the lock rows that are
  unexpired and belong to no such session, and it marks exactly those sessions inactive.
\<close>

lemma cleanup_sweep_in_transaction:
  assumes "distinct (map us_session_id (user_sessions (working t)))"
  shows "fst (cleanup_stale_sessions_and_locks_core e True t m) =
           Inr (length (filter (\<lambda>l. wl_expires_at l \<le> now e) (widget_locks (working t))),
                length (filter (\<lambda>s. us_last_activity s \<le> now e - timedelta_minutes m
                                      \<and> us_is_active s)
                          (user_sessions (working t))))"
    and "widget_locks (working (snd (cleanup_stale_sessions_and_locks_core e True t m))) =
           filter (\<lambda>l. \<not> wl_expires_at l \<le> now e
                        \<and> wl_session_id l \<notin> us_session_id `
                            {s \<in> set (user_sessions (working t)).
                               us_last_activity s \<le> now e - timedelta_minutes m
                               \<and> us_is_active s})
             (widget_locks (working t))"
    and "user_sessions (working (snd (cleanup_stale_sessions_and_locks_core e True t m))) =
           map (\<lambda>s. if us_last_activity s \<le> now e - timedelta_minutes m \<and> us_is_active s
                     then s\<lparr>us_is_active := False\<rparr> else s)
             (user_sessions (working t))"
proof -
  let ?stale = "\<lambda>s. us_last_activity s \<le> now e - timedelta_minutes m \<and> us_is_active s"
  let ?t1 = "upd_locks (filter (\<lambda>l. \<not> wl_expires_at l \<le> now e)) t"
  let ?ss = "filter ?stale (user_sessions (working ?t1))"
  have tab: "user_sessions (working ?t1) = user_sessions (working t)"
    by (simp add: upd_locks_def)
  have res: "cleanup_stale_sessions_and_locks_core e True t m =
          (Inr (length (filter (\<lambda>l. wl_expires_at l \<le> now e) (widget_locks (working t))),
                length ?ss), release_stale ?ss ?t1)"
    by (simp add: cleanup_stale_sessions_and_locks_core_def Let_def)
  show "fst (cleanup_stale_sessions_and_locks_core e True t m) =
           Inr (length (filter (\<lambda>l. wl_expires_at l \<le> now e) (widget_locks (working t))),
                length (filter ?stale (user_sessions (working t))))"
    by (simp add: res tab)
  show "widget_locks (working (snd (cleanup_stale_sessions_and_locks_core e True t m))) =
           filter (\<lambda>l. \<not> wl_expires_at l \<le> now e
                        \<and> wl_session_id l \<notin> us_session_id `
                            {s \<in> set (user_sessions (working t)). ?stale s})
             (widget_locks (working t))"
    by (simp add: res release_stale_locks tab upd_locks_def conj_commute)
  have d: "distinct (map us_session_id (user_sessions (working ?t1)))"
    using assms tab by simp
  have ds: "distinct (map us_session_id ?ss)"
    using d by (rule distinct_map_filter)
  have "user_sessions (working (release_stale ?ss ?t1)) =
          map (\<lambda>r. if us_session_id r \<in> us_session_id ` set ?ss
                    then r\<lparr>us_is_active := False\<rparr> else r)
            (user_sessions (working ?t1))"
    using d _ ds by (rule release_stale_sessions) simp
  also have "\<dots> = map (\<lambda>s. if ?stale s then s\<lparr>us_is_active := False\<rparr> else s)
                     (user_sessions (working t))"
    unfolding tab
  proof (rule map_cong[OF refl])
    fix r assume r: "r \<in> set (user_sessions (working t))"
    have "us_session_id r \<in> us_session_id ` set (filter ?stale (user_sessions (working t)))
            \<longleftrightarrow> ?stale r"
    proof
      assume "us_session_id r
                \<in> us_session_id ` set (filter ?stale (user_sessions (working t)))"
      then obtain x where x: "x \<in> set (user_sessions (working t))" "?stale x"
        "us_session_id r = us_session_id x" by auto
      from assms r x(1) x(3) have "r = x" by (rule distinct_key_eq)
      with x(2) show "?stale r" by simp
    next
      assume "?stale r"
      with r show "us_session_id r
                \<in> us_session_id ` set (filter ?stale (user_sessions (working t)))"
        by auto
    qed
    then show "(if us_session_id r
                     \<in> us_session_id ` set (filter ?stale (user_sessions (working t)))
                then r\<lparr>us_is_active := False\<rparr> else r) =
               (if ?stale r then r\<lparr>us_is_active := False\<rparr> else r)"
      by simp
  qed
  finally show "user_sessions (working (snd (cleanup_stale_sessions_and_locks_core e True t m)))
           = map (\<lambda>s. if ?stale s then s\<lparr>us_is_active := False\<rparr> else s)
               (user_sessions (working t))"
    by (simp add: res)
qed


section \<open>Where the operations depart from the specification\<close>

text \<open>A widget that has an active, unexpired lock row is denied to every requester, the
  owner of the row included, and the call leaves the store and the cache as they were.\<close>

lemma held_widget_is_denied_to_all:
  assumes "pk_unique (store s)"
    and "l \<in> set (widget_locks (store s))" "wl_widget_id l = w" "wl_is_active l"
    and "now e \<le> wl_expires_at l"
    and "fault \<noteq> Some CheckSelectFails"
  shows "\<not> la_success (fst (acquire_widget_lock e fault s d w ui dur))
         \<and> snd (acquire_widget_lock e fault s d w ui dur) = s"
proof -
  have "distinct (map wl_widget_id (widget_locks (working (begin_session (store s)))))"
    using assms(1) by (simp add: pk_unique_def begin_session_def)
  then have "get_active_widget_lock (begin_session (store s)) w = Inr (Some l)"
    by (rule active_lock_some) (simp_all add: assms begin_session_def)
  then have "acquire_from_store e fault s d w ui dur =
               (acquire_locked_by e w (wl_session_id l) (wl_expires_at l) (wl_user_name l), s)"
    using assms(5,6) by (simp add: acquire_from_store_def is_expired_def)
  then show ?thesis
    by (simp add: acquire_widget_lock_def acquire_locked_by_def split: option.split)
qed

text \<open>
  Claim C1 (owner re-acquisition). Alice acquires widget 1 at second 0 with a lease of 60
  seconds. Her second AcquireLock at second 40, before the expiry, is answered by the
  service's store check, which looks only at \<open>is_expired\<close> and not at the owner: the
  call returns \<open>success = False\<close> with ``Widget is locked by A'' and the store, hence
  the expiry, stays as it was. At second 10 the lock cache already denies her in the same
  way. \<^verbatim>\<open>CoreWidgetLocking.acquire_widget_lock\<close>, which the service did not reach, compares
  the owner and would have renewed the lock to second 100.
\<close>

theorem owner_reacquire_is_denied:
  "la_success (fst (acquire_widget_lock (at_seconds 0) None initial_system 5 1 alice 60))
   \<and> fst (acquire_widget_lock (at_seconds 40) None (alice_holds 60) 5 1 alice 60) =
       \<lparr>la_success = False, la_widget_id = 1, la_session_id = 100,
        la_expires_at = 60000000, la_message = ''Widget is locked by A''\<rparr>
   \<and> store (snd (acquire_widget_lock (at_seconds 40) None (alice_holds 60) 5 1 alice 60)) =
       store (alice_holds 60)
   \<and> fst (acquire_widget_lock (at_seconds 10) None (alice_holds 60) 5 1 alice 60) =
       \<lparr>la_success = False, la_widget_id = 1, la_session_id = 900,
        la_expires_at = 10000000, la_message = ''Widget is locked by A''\<rparr>
   \<and> map wl_expires_at
        (widget_locks
           (committed
              (snd (acquire_widget_lock_core (at_seconds 40) None
                      (begin_session (store (alice_holds 60))) 5 1 alice 60))))
       = [100000000]"
  by code_simp

text \<open>
  Claim C2 (session consistency). The empty store is consistent, and so is the store
  after Alice acquires widget 1 at second 0 with a lease of 30 seconds. At second 31 the
  lease has run out and Bob acquires the widget: the lock row is rewritten with Bob's
  session id while Alice's session still lists widget 1. The store after this completed
  acquisition is not consistent.
\<close>

theorem takeover_breaks_session_consistency:
  "session_consistent (store initial_system)
   \<and> session_consistent (store (alice_holds 30))
   \<and> la_success (fst (acquire_widget_lock (at_seconds 31) None (alice_holds 30) 5 1 bob 30))
   \<and> \<not> session_consistent
         (store (snd (acquire_widget_lock (at_seconds 31) None (alice_holds 30) 5 1 bob 30)))
   \<and> map us_locked_widgets
        (user_sessions
           (store (snd (acquire_widget_lock (at_seconds 31) None (alice_holds 30) 5 1 bob 30))))
       = [[1], [1]]
   \<and> map wl_session_id
        (widget_locks
           (store (snd (acquire_widget_lock (at_seconds 31) None (alice_holds 30) 5 1 bob 30))))
       = [131]"
  by code_simp


lemma stop_editing_without_session:
  assumes "\<forall>x \<in> set (user_sessions (store s)). \<not> (us_dashboard_id x = d \<and> us_user_id x = u)"
  shows "stop_dashboard_editing e s d u = (True, s)"
proof -
  have "filter (\<lambda>x. us_dashboard_id x = d \<and> us_user_id x = u \<and> us_is_active x)
          (user_sessions (store s)) = []"
    "filter (\<lambda>x. us_dashboard_id x = d \<and> us_user_id x = u \<and> \<not> us_is_active x)
          (user_sessions (store s)) = []"
    using assms by (auto simp: filter_empty_conv)
  then show ?thesis
    by (simp add: stop_dashboard_editing_def stop_editing_session_def begin_session_def
        close_session_def upd_locks_def)
qed

text \<open>
  Claim C3 (reaper). At second 400 Alice's lock of second 0 (lease 60 seconds) has
  expired and her session has been idle for more than five minutes. Inside its
  transaction the sweep deletes the lock row and deactivates the session, and the call
  returns the counts (1, 1); the transaction is closed without a commit, so the store
  still holds the expired lock row and the session is still active.
\<close>

theorem cleanup_counts_but_store_keeps_rows:
  "fst (cleanup_stale_sessions_and_locks (at_seconds 400) True (alice_holds 60)) = (1, 1)
   \<and> widget_locks
        (working
           (snd (cleanup_stale_sessions_and_locks_core (at_seconds 400) True
                   (begin_session (store (alice_holds 60))) 5))) = []
   \<and> map us_is_active
        (user_sessions
           (working
              (snd (cleanup_stale_sessions_and_locks_core (at_seconds 400) True
                      (begin_session (store (alice_holds 60))) 5)))) = [False]
   \<and> widget_locks
        (store (snd (cleanup_stale_sessions_and_locks (at_seconds 400) True (alice_holds 60))))
       = [alice_lock 60]
   \<and> map us_is_active
        (user_sessions
           (store (snd (cleanup_stale_sessions_and_locks (at_seconds 400) True
                          (alice_holds 60))))) = [True]"
  by code_simp

text \<open>
  Claim C8 (atomic abort of AcquireLock). Alice acquires widget 1 on the empty store and
  the commit of the lock upsert raises. The call returns a structured negative result and
  no lock row is stored, but the session row that \<^verbatim>\<open>get_or_create_user_session\<close> created
  and committed on its own is still in the store.
\<close>

theorem failed_acquire_leaves_session_row:
  "fst (acquire_widget_lock (at_seconds 0) (Some LockCommitFails) initial_system 5 1 alice 60)
     = \<lparr>la_success = False, la_widget_id = 1, la_session_id = 900, la_expires_at = 0,
        la_message = ''Failed to acquire lock: StoreError''\<rparr>
   \<and> store (snd (acquire_widget_lock (at_seconds 0) (Some LockCommitFails) initial_system
                    5 1 alice 60))
     = \<lparr>widget_locks = [], user_sessions = [alice_session []], collaboration_events = []\<rparr>
   \<and> store initial_system
     = \<lparr>widget_locks = [], user_sessions = [], collaboration_events = []\<rparr>"
  by code_simp

section \<open>Lock rows and their sessions\<close>




















section \<open>StopEditing without a session\<close>





end
